theory Spec2Isabelle
  imports Main "HOL-Library.Word"
begin

unbundle bit_operations_syntax

section \<open>Build mode and assertions\<close>

text \<open>
  \<^verbatim>\<open>Q_ASSERT\<close> and \<^verbatim>\<open>Q_ASSERT_X\<close> abort the process when the condition is false in a
  build with assertions compiled in, and expand to nothing when \<^verbatim>\<open>QT_NO_DEBUG\<close> is
  defined. Every function that contains an assertion therefore takes the build mode
  \<open>debug\<close> (\<open>True\<close>: assertions compiled in) and returns \<open>abort + 'a\<close>.
\<close>

datatype abort = AssertionFailed

type_synonym byte = "8 word"
type_synonym quint32 = "32 word"

section \<open>ChatMessageCommand: the wire format\<close>

subsection \<open>QDataStream, big-endian, over a byte array\<close>

definition putUInt32 :: "quint32 \<Rightarrow> byte list" where
  "putUInt32 w = [ucast (drop_bit 24 w), ucast (drop_bit 16 w), ucast (drop_bit 8 w), ucast w]"

definition getUInt32 :: "byte list \<Rightarrow> quint32" where
  "getUInt32 bs =
     push_bit 24 (ucast (bs ! 0)) OR push_bit 16 (ucast (bs ! 1))
       OR push_bit 8 (ucast (bs ! 2)) OR ucast (bs ! 3)"

text \<open>
  A \<^verbatim>\<open>QByteArray\<close> is either null or holds bytes; \<^verbatim>\<open>QString::toUtf8\<close> of a null string
  is the null array.
\<close>

datatype QByteArray = Null | Bytes "byte list"

fun constData :: "QByteArray \<Rightarrow> byte list" where
  "constData Null = []"
| "constData (Bytes bs) = bs"

definition size_ba :: "QByteArray \<Rightarrow> int" where
  "size_ba ba = int (length (constData ba))"

text \<open>
  \<^verbatim>\<open>QByteArray::resize(n)\<close> where \<open>n\<close> is below the current size: the array keeps its
  first \<open>n\<close> bytes (none when \<open>n\<close> is negative) and is no longer null.
\<close>

definition resize :: "int \<Rightarrow> QByteArray \<Rightarrow> QByteArray" where
  "resize n ba = Bytes (take (nat n) (constData ba))"

text \<open>
  \<^verbatim>\<open>stream << ba\<close>: the null array is written as the length word \<^verbatim>\<open>0xffffffff\<close> alone,
  any other array as its 32-bit length followed by its bytes.
\<close>

fun putByteArray :: "QByteArray \<Rightarrow> byte list" where
  "putByteArray Null = putUInt32 0xFFFFFFFF"
| "putByteArray (Bytes bs) = putUInt32 (word_of_nat (length bs)) @ bs"

text \<open>
  Writing through a \<^verbatim>\<open>QBuffer\<close> opened write-only (which does not truncate) after
  \<^verbatim>\<open>seek(pos)\<close>: a gap up to \<open>pos\<close> is filled with zero bytes, bytes already in the
  buffer at the written positions are overwritten, and later ones stay.
\<close>

definition write_at :: "nat \<Rightarrow> byte list \<Rightarrow> byte list \<Rightarrow> byte list" where
  "write_at pos data buf =
     take pos (buf @ replicate (pos - length buf) 0) @ data @ drop (pos + length data) buf"

datatype Status = Ok | ReadPastEnd

text \<open>The reading stream: the bytes not yet consumed, and the status.\<close>

type_synonym stream = "byte list \<times> Status"

text \<open>\<^verbatim>\<open>QDataStream::setStatus\<close> keeps the first error.\<close>

definition setStatus :: "Status \<Rightarrow> Status \<Rightarrow> Status" where
  "setStatus new old = (if old = Ok then new else old)"

text \<open>
  \<^verbatim>\<open>stream >> quint32\<close>: four bytes, most significant first; with fewer than four
  bytes left the value is 0, what is left is consumed and the status becomes
  \<open>ReadPastEnd\<close>.
\<close>

definition readUInt32 :: "stream \<Rightarrow> quint32 \<times> stream" where
  "readUInt32 st =
     (case st of (bs, status) \<Rightarrow>
        if 4 \<le> length bs then (getUInt32 (take 4 bs), (drop 4 bs, status))
        else (0, ([], setStatus ReadPastEnd status)))"

text \<open>
  \<^verbatim>\<open>stream >> QByteArray\<close>: the length word, then that many bytes; the length
  \<^verbatim>\<open>0xffffffff\<close> stands for the null array; when fewer bytes are left than
  announced the array is cleared and the status becomes \<open>ReadPastEnd\<close>.
\<close>

definition readByteArray :: "stream \<Rightarrow> byte list \<times> stream" where
  "readByteArray st =
     (case readUInt32 st of (len, (bs, status)) \<Rightarrow>
        if len = 0xFFFFFFFF then ([], (bs, status))
        else if unat len \<le> length bs then (take (unat len) bs, (drop (unat len) bs, status))
        else ([], ([], setStatus ReadPastEnd status)))"

subsection \<open>send\<close>

text \<open>
  \<open>maxCommandData\<close> is a constant of the absent \<^verbatim>\<open>ProtocolCommand\<close> header and
  \<open>prepareCommand\<close> the absent function that lays out the command buffer before the
  payload is written at offset 6; both are parameters. \<open>secs\<close> is what
  \<^verbatim>\<open>timestamp.secsTo(QDateTime::currentDateTime())\<close> returned, \<open>encodedText\<close> what
  \<^verbatim>\<open>text.toUtf8()\<close> returned. The result is the command buffer handed to
  \<^verbatim>\<open>sendCommand\<close>.
\<close>

definition send ::
  "bool \<Rightarrow> int \<Rightarrow> (byte \<Rightarrow> int \<Rightarrow> byte list) \<Rightarrow> int \<Rightarrow> QByteArray \<Rightarrow> abort + byte list" where
  "send debug maxCommandData prepareCommand secs encodedText =
     (if size_ba encodedText > maxCommandData - 6 \<and> debug then Inl AssertionFailed
      else
        let encodedText' =
              (if size_ba encodedText > maxCommandData - 6
               then resize (maxCommandData - 6) encodedText else encodedText);
            commandBuffer = prepareCommand 0x00 (size_ba encodedText' + 6)
        in Inr (write_at 6 (putUInt32 (word_of_int secs) @ putByteArray encodedText')
                  commandBuffer))"

subsection \<open>process\<close>

text \<open>
  \<^verbatim>\<open>process\<close> has no effect but one of its two log lines, which is its result here.
\<close>

datatype processed = InvalidCommand | ChatMessage quint32 "byte list"

definition process :: "byte list \<Rightarrow> processed" where
  "process data =
     (case readUInt32 (data, Ok) of (timestamp, st1) \<Rightarrow>
        case readByteArray st1 of (encodedText, (rest, status)) \<Rightarrow>
          if status \<noteq> Ok then InvalidCommand else ChatMessage timestamp encodedText)"

text \<open>
  The fields of a command in their fixed order, in the spec's words: a 4-byte
  timestamp delta, then a length-prefixed byte block. \<open>declaredLength\<close> is the
  length prefix; the fields parse when both words are there and the block is the
  null array or has as many bytes as declared.
\<close>

definition declaredLength :: "byte list \<Rightarrow> quint32" where
  "declaredLength d = getUInt32 (take 4 (drop 4 d))"

definition fieldsParse :: "byte list \<Rightarrow> bool" where
  "fieldsParse d =
     (8 \<le> length d \<and> (declaredLength d = 0xFFFFFFFF \<or> unat (declaredLength d) \<le> length d - 8))"

text \<open>
  An instance of the absent \<^verbatim>\<open>prepareCommand\<close> for concrete inputs: a buffer of six
  header bytes carrying the opcode 0x10 of the chat message and the state.
\<close>

definition prepareHeader :: "byte \<Rightarrow> int \<Rightarrow> byte list" where
  "prepareHeader st reserveSize = [0, 0, 0x10, st, 0, 0]"

section \<open>The contact request workflow: data\<close>

text \<open>
  Hostnames are onion addresses; on such text \<^verbatim>\<open>QString::toLatin1\<close> and
  \<^verbatim>\<open>QString::fromLatin1\<close> are inverse to each other, so \<^verbatim>\<open>QString\<close> and
  \<^verbatim>\<open>QByteArray\<close> hostnames are both \<open>string\<close>. A \<^verbatim>\<open>QDateTime\<close> is \<open>None\<close> when
  null, and otherwise a number of seconds.
\<close>

type_synonym QDateTime = "nat option"

definition endsWith :: "string \<Rightarrow> string \<Rightarrow> bool" where
  "endsWith s suf = (length suf \<le> length s \<and> drop (length s - length suf) s = suf)"

text \<open>\<^verbatim>\<open>QByteArray::toLower\<close>: the Latin-1 capital letters are moved down by 32.\<close>

definition toLower_char :: "char \<Rightarrow> char" where
  "toLower_char c =
     (let n = (of_char c :: nat)
      in if (65 \<le> n \<and> n \<le> 90) \<or> (192 \<le> n \<and> n \<le> 222 \<and> n \<noteq> 215)
         then char_of (n + 32) else c)"

definition toLower :: "string \<Rightarrow> string" where
  "toLower s = map toLower_char s"

text \<open>\<^verbatim>\<open>QString::chop(n)\<close> removes \<open>n\<close> characters from the end.\<close>

definition chop :: "nat \<Rightarrow> string \<Rightarrow> string" where
  "chop n s = take (length s - n) s"

datatype Purpose = Unknown | InboundRequest | KnownContact

datatype Response = Pending | Accepted | Rejected | Error

text \<open>The \<^verbatim>\<open>QObject\<close> parent of a connection: the default owner, a request or a contact.\<close>

datatype owner = DefaultOwner | RequestOwner nat | UserOwner nat

text \<open>
  Objects live in heaps indexed by address (a natural number); a nullable pointer is
  an \<open>option\<close>. \<^verbatim>\<open>Protocol::Connection\<close>, \<^verbatim>\<open>Protocol::ContactRequestChannel\<close> and
  \<^verbatim>\<open>ContactUser\<close> are classes whose code is absent; they carry the attributes that
  the request manager reads and writes.
\<close>

record Connection =
  purpose :: Purpose
  authenticatedIdentity :: string
  isConnected :: bool
  parent :: owner
  requestChannels :: "nat list"

record ContactRequestChannel =
  chan_connection :: nat
  chan_nickname :: string
  chan_message :: string
  responseStatus :: "Response option"

record ContactUser =
  user_nickname :: string
  user_hostname :: string
  user_connection :: "nat option"

record IncomingContactRequest =
  m_hostname :: string
  m_nickname :: string
  m_message :: string
  m_requestDate :: QDateTime
  m_lastRequestDate :: QDateTime
  connection :: "nat option"

text \<open>
  What the settings store keeps under one request's key; a field that is missing
  reads as empty or null.
\<close>

record stored_request =
  stored_nickname :: string
  stored_message :: string
  stored_requestDate :: QDateTime
  stored_lastRequestDate :: QDateTime

text \<open>
  The state: the three heaps of the network objects and of the request objects with
  the next free request address, the manager's active list \<open>m_requests\<close>, the
  persisted request records by settings key, the persisted blacklist, the contacts
  manager's objects and list, and the hostnames of the local identities. Signals
  that the code emits for the user interface (\<^verbatim>\<open>requestAdded\<close>, \<^verbatim>\<open>requestRemoved\<close>,
  \<^verbatim>\<open>nicknameChanged\<close>, \<^verbatim>\<open>hasActiveConnectionChanged\<close>) change none of it.
\<close>

record state =
  connections :: "nat \<Rightarrow> Connection"
  channels :: "nat \<Rightarrow> ContactRequestChannel"
  requests :: "nat \<Rightarrow> IncomingContactRequest"
  next_request :: nat
  m_requests :: "nat list"
  settings :: "string \<rightharpoonup> stored_request"
  hostnameBlacklist :: "string list"
  users :: "nat \<Rightarrow> ContactUser"
  contacts :: "nat list"
  next_user :: nat
  identities :: "string list"

section \<open>The collaborators\<close>

text \<open>
  Modelled from the spec: \<^verbatim>\<open>ContactRequestChannel::setResponseStatus\<close>, absent from
  the sources, records the reply status that the channel sends to the peer.
\<close>

definition setResponseStatus :: "nat \<Rightarrow> Response \<Rightarrow> state \<Rightarrow> state" where
  "setResponseStatus ch st s =
     s\<lparr>channels := (channels s)(ch := (channels s ch)\<lparr>responseStatus := Some st\<rparr>)\<rparr>"

text \<open>
  Modelled from the spec: \<^verbatim>\<open>Connection::close\<close>, absent from the sources, is
  idempotent and marks the connection closed; the deletion of the object is deferred.
\<close>

definition close :: "nat \<Rightarrow> state \<Rightarrow> state" where
  "close c s = s\<lparr>connections := (connections s)(c := (connections s c)\<lparr>isConnected := False\<rparr>)\<rparr>"

text \<open>
  Modelled from the spec: \<^verbatim>\<open>Connection::setPurpose\<close>, absent from the sources,
  succeeds only if the current purpose is \<open>Unknown\<close>, and fails otherwise.
\<close>

definition setPurpose :: "nat \<Rightarrow> Purpose \<Rightarrow> state \<Rightarrow> bool \<times> state" where
  "setPurpose c p s =
     (if purpose (connections s c) = Unknown
      then (True, s\<lparr>connections := (connections s)(c := (connections s c)\<lparr>purpose := p\<rparr>)\<rparr>)
      else (False, s))"

definition setParent :: "nat \<Rightarrow> owner \<Rightarrow> state \<Rightarrow> state" where
  "setParent c p s = s\<lparr>connections := (connections s)(c := (connections s c)\<lparr>parent := p\<rparr>)\<rparr>"

text \<open>
  \<^verbatim>\<open>Connection::findChannel<ContactRequestChannel>\<close>: the first contact request
  channel of the connection, or null.
\<close>

definition findChannel :: "nat \<Rightarrow> state \<Rightarrow> nat option" where
  "findChannel c s = (case requestChannels (connections s c) of [] \<Rightarrow> None | ch # _ \<Rightarrow> Some ch)"

text \<open>
  Modelled from the spec: the contacts collaborator, absent from the sources, exposes
  \<^verbatim>\<open>lookupHostname(hostname) -> contact|none\<close> and \<^verbatim>\<open>addContact(nickname) -> contact\<close>;
  a contact exposes \<^verbatim>\<open>setHostname\<close> and \<^verbatim>\<open>assignConnection\<close>, which reassigns the
  ownership of the connection to the contact. \<^verbatim>\<open>updateStatus\<close> changes nothing that
  the state holds.
\<close>

definition lookupHostname :: "string \<Rightarrow> state \<Rightarrow> nat option" where
  "lookupHostname hostname s = List.find (\<lambda>u. user_hostname (users s u) = hostname) (contacts s)"

definition addContact :: "string \<Rightarrow> state \<Rightarrow> nat \<times> state" where
  "addContact nickname s =
     (next_user s,
      s\<lparr>users := (users s)(next_user s :=
            \<lparr>user_nickname = nickname, user_hostname = [], user_connection = None\<rparr>),
        contacts := contacts s @ [next_user s],
        next_user := Suc (next_user s)\<rparr>)"

definition setHostname :: "nat \<Rightarrow> string \<Rightarrow> state \<Rightarrow> state" where
  "setHostname u hostname s =
     s\<lparr>users := (users s)(u := (users s u)\<lparr>user_hostname := hostname\<rparr>)\<rparr>"

definition assignConnection :: "nat \<Rightarrow> nat \<Rightarrow> state \<Rightarrow> state" where
  "assignConnection u c s =
     s\<lparr>users := (users s)(u := (users s u)\<lparr>user_connection := Some c\<rparr>),
       connections := (connections s)(c := (connections s c)\<lparr>parent := UserOwner u\<rparr>)\<rparr>"

text \<open>
  \<^verbatim>\<open>identityManager->lookupHostname\<close>, absent from the sources: whether the hostname
  is one of the local identities.
\<close>

definition lookupIdentity :: "string \<Rightarrow> state \<Rightarrow> bool" where
  "lookupIdentity hostname s = (hostname \<in> set (identities s))"

section \<open>IncomingRequestManager\<close>

text \<open>
  \<^verbatim>\<open>requestFromHostname\<close>: the two assertions, then the first request of the active
  list with this hostname, or null.
\<close>

definition requestFromHostname :: "bool \<Rightarrow> string \<Rightarrow> state \<Rightarrow> abort + nat option" where
  "requestFromHostname debug hostname s =
     (if debug \<and> \<not> endsWith hostname ''.onion'' then Inl AssertionFailed
      else if debug \<and> hostname \<noteq> toLower hostname then Inl AssertionFailed
      else Inr (List.find (\<lambda>r. m_hostname (requests s r) = hostname) (m_requests s)))"

text \<open>
  \<^verbatim>\<open>IncomingRequestManager::removeRequest\<close>: \<^verbatim>\<open>removeOne\<close> takes the first occurrence
  out of the active list; the deletion of the object is deferred.
\<close>

definition manager_removeRequest :: "nat \<Rightarrow> state \<Rightarrow> state" where
  "manager_removeRequest r s = s\<lparr>m_requests := remove1 r (m_requests s)\<rparr>"

definition addRejectedHost :: "string \<Rightarrow> state \<Rightarrow> state" where
  "addRejectedHost hostname s =
     (let blacklist = hostnameBlacklist s
      in if hostname \<notin> set blacklist
         then s\<lparr>hostnameBlacklist := blacklist @ [hostname]\<rparr>
         else s)"

definition isHostnameRejected :: "string \<Rightarrow> state \<Rightarrow> bool" where
  "isHostnameRejected hostname s = (hostname \<in> set (hostnameBlacklist s))"

section \<open>IncomingContactRequest\<close>

text \<open>
  The constructor: a fresh object with the hostname, empty nickname and message,
  null dates and no connection. Its first assertion, that the manager is not null,
  holds at both places that construct a request.
\<close>

definition new_IncomingContactRequest :: "bool \<Rightarrow> string \<Rightarrow> state \<Rightarrow> abort + (nat \<times> state)" where
  "new_IncomingContactRequest debug h s =
     (if debug \<and> \<not> endsWith h ''.onion'' then Inl AssertionFailed
      else Inr (next_request s,
        s\<lparr>requests := (requests s)(next_request s :=
              \<lparr>m_hostname = h, m_nickname = [], m_message = [], m_requestDate = None,
               m_lastRequestDate = None, connection = None\<rparr>),
          next_request := Suc (next_request s)\<rparr>))"

definition settingsKey :: "string \<Rightarrow> string" where
  "settingsKey hostname = ''contactRequests.'' @ chop (length ''.onion'') hostname"

text \<open>
  \<^verbatim>\<open>save\<close>: \<open>now\<close> is what \<^verbatim>\<open>QDateTime::currentDateTime()\<close> returns when the request
  date is null.
\<close>

definition save :: "nat \<Rightarrow> nat \<Rightarrow> state \<Rightarrow> state" where
  "save now r s =
     (let req = requests s r;
          req' = (if m_requestDate req = None
                  then req\<lparr>m_requestDate := Some now, m_lastRequestDate := Some now\<rparr>
                  else req)
      in s\<lparr>requests := (requests s)(r := req'),
           settings := (settings s)(settingsKey (m_hostname req) \<mapsto>
             \<lparr>stored_nickname = m_nickname req, stored_message = m_message req,
              stored_requestDate = m_requestDate req',
              stored_lastRequestDate = m_lastRequestDate req'\<rparr>)\<rparr>)"

definition renew :: "nat \<Rightarrow> nat \<Rightarrow> state \<Rightarrow> state" where
  "renew now r s =
     s\<lparr>requests := (requests s)(r := (requests s r)\<lparr>m_lastRequestDate := Some now\<rparr>)\<rparr>"

text \<open>\<^verbatim>\<open>IncomingContactRequest::removeRequest\<close> undefines the request's settings key.\<close>

definition removeRequest :: "nat \<Rightarrow> state \<Rightarrow> state" where
  "removeRequest r s =
     s\<lparr>settings := (settings s)(settingsKey (m_hostname (requests s r)) := None)\<rparr>"

definition setMessage :: "nat \<Rightarrow> string \<Rightarrow> state \<Rightarrow> state" where
  "setMessage r message s =
     s\<lparr>requests := (requests s)(r := (requests s r)\<lparr>m_message := message\<rparr>)\<rparr>"

definition setNickname :: "nat \<Rightarrow> string \<Rightarrow> state \<Rightarrow> state" where
  "setNickname r nickname s =
     s\<lparr>requests := (requests s)(r := (requests s r)\<lparr>m_nickname := nickname\<rparr>)\<rparr>"

definition setConnection :: "nat \<Rightarrow> nat option \<Rightarrow> state \<Rightarrow> state" where
  "setConnection r c s =
     s\<lparr>requests := (requests s)(r := (requests s r)\<lparr>connection := c\<rparr>)\<rparr>"

text \<open>
  \<^verbatim>\<open>load\<close> reads the four fields under the request's settings key; a missing
  field, or a missing key, reads as empty or null.
\<close>

definition load :: "nat \<Rightarrow> state \<Rightarrow> state" where
  "load r s =
     (let stored = (case settings s (settingsKey (m_hostname (requests s r))) of
                      Some x \<Rightarrow> x
                    | None \<Rightarrow> \<lparr>stored_nickname = [], stored_message = [],
                               stored_requestDate = None, stored_lastRequestDate = None\<rparr>);
          s1 = setNickname r (stored_nickname stored) s;
          s2 = setMessage r (stored_message stored) s1
      in s2\<lparr>requests := (requests s2)(r := (requests s2 r)
              \<lparr>m_requestDate := stored_requestDate stored,
               m_lastRequestDate := stored_lastRequestDate stored\<rparr>)\<rparr>)"

text \<open>
  \<^verbatim>\<open>setChannel\<close>. The two handlers that it connects run when their signal is
  delivered, which is a later step: \<open>channelInvalidated\<close> and \<open>connectionClosed\<close>
  below.
\<close>

definition setChannel :: "nat \<Rightarrow> nat \<Rightarrow> state \<Rightarrow> state" where
  "setChannel r channel s =
     (let s1 = (case connection (requests s r) of Some old \<Rightarrow> close old s | None \<Rightarrow> s);
          newConnection = chan_connection (channels s1 channel)
      in case setPurpose newConnection InboundRequest s1 of
           (False, s2) \<Rightarrow> close newConnection s2
         | (True, s2) \<Rightarrow>
             let s3 = setParent newConnection (RequestOwner r) s2;
                 s4 = setConnection r (Some newConnection) s3;
                 s5 = setNickname r (chan_nickname (channels s4 channel)) s4
             in setMessage r (chan_message (channels s5 channel)) s5)"

text \<open>The handler of the channel's \<^verbatim>\<open>invalidated\<close> signal.\<close>

definition channelInvalidated :: "nat \<Rightarrow> nat \<Rightarrow> state \<Rightarrow> state" where
  "channelInvalidated r channel s =
     (let c = chan_connection (channels s channel)
      in if connection (requests s r) = Some c \<and> purpose (connections s c) = InboundRequest
         then close c s else s)"

text \<open>The handler of the connection's \<^verbatim>\<open>closed\<close> signal.\<close>

definition connectionClosed :: "nat \<Rightarrow> nat \<Rightarrow> state \<Rightarrow> state" where
  "connectionClosed r newConnection s =
     (if \<not> isConnected (connections s newConnection)
      then (if connection (requests s r) = Some newConnection then setConnection r None s else s)
      else s)"

text \<open>
  \<^verbatim>\<open>accept\<close>, first part: the contact is the one given, or a new one made from the
  request's nickname and hostname.
\<close>

definition accept_user :: "bool \<Rightarrow> nat option \<Rightarrow> nat \<Rightarrow> state \<Rightarrow> abort + (nat \<times> state)" where
  "accept_user debug user r s =
     (case user of
        Some u \<Rightarrow> Inr (u, s)
      | None \<Rightarrow>
          if debug \<and> m_nickname (requests s r) = [] then Inl AssertionFailed
          else (case addContact (m_nickname (requests s r)) s of
                  (u, s1) \<Rightarrow> Inr (u, setHostname u (m_hostname (requests s1 r)) s1)))"

text \<open>\<^verbatim>\<open>accept\<close>, second part: the response and the hand-over of a live connection.\<close>

definition accept_connection :: "nat \<Rightarrow> nat \<Rightarrow> state \<Rightarrow> state" where
  "accept_connection u r s =
     (case connection (requests s r) of
        None \<Rightarrow> s
      | Some c \<Rightarrow>
          let s2 = (case findChannel c s of
                      Some channel \<Rightarrow>
                        let s1 = setResponseStatus channel Accepted (assignConnection u c s)
                        in if parent (connections s1 c) \<noteq> UserOwner u then close c s1 else s1
                    | None \<Rightarrow> close c s)
          in setConnection r None s2)"

definition accept :: "bool \<Rightarrow> nat option \<Rightarrow> nat \<Rightarrow> state \<Rightarrow> abort + state" where
  "accept debug user r s =
     (case accept_user debug user r s of
        Inl e \<Rightarrow> Inl e
      | Inr (u, s1) \<Rightarrow> Inr (manager_removeRequest r (removeRequest r (accept_connection u r s1))))"

definition reject :: "nat \<Rightarrow> state \<Rightarrow> state" where
  "reject r s =
     (let s1 = (case connection (requests s r) of
                  None \<Rightarrow> s
                | Some c \<Rightarrow>
                    let s0 = (case findChannel c s of
                                Some channel \<Rightarrow> setResponseStatus channel Rejected s
                              | None \<Rightarrow> s)
                    in setConnection r None (close c s0));
          s2 = removeRequest r s1;
          s3 = addRejectedHost (m_hostname (requests s2 r)) s2
      in manager_removeRequest r s3)"

section \<open>IncomingRequestManager::loadRequests\<close>

text \<open>
  One turn of the loop of \<^verbatim>\<open>loadRequests\<close>, for one key of the stored
  \<^verbatim>\<open>contactRequests\<close> object, and the loop over the keys, which the caller reads
  from the store.
\<close>

definition loadRequest :: "bool \<Rightarrow> string \<Rightarrow> state \<Rightarrow> abort + state" where
  "loadRequest debug hostStr s =
     (let host = (if \<not> endsWith hostStr ''.onion'' then hostStr @ ''.onion'' else hostStr)
      in case new_IncomingContactRequest debug host s of
           Inl e \<Rightarrow> Inl e
         | Inr (request, s1) \<Rightarrow>
             let s2 = load request s1
             in Inr (s2\<lparr>m_requests := m_requests s2 @ [request]\<rparr>))"

fun loadRequests :: "bool \<Rightarrow> string list \<Rightarrow> state \<Rightarrow> abort + state" where
  "loadRequests debug [] s = Inr s"
| "loadRequests debug (hostStr # keys) s =
     (case loadRequest debug hostStr s of
        Inl e \<Rightarrow> Inl e
      | Inr s' \<Rightarrow> loadRequests debug keys s')"

section \<open>IncomingRequestManager::requestReceived\<close>

text \<open>
  The request that the handler works on: the existing one, updated and renewed, or
  a new one. The result is the request, \<open>newRequest\<close> and the state.
\<close>

definition attachRequest ::
  "bool \<Rightarrow> nat \<Rightarrow> string \<Rightarrow> nat \<Rightarrow> state \<Rightarrow> abort + (nat \<times> bool \<times> state)" where
  "attachRequest debug now hostname channel s =
     (case requestFromHostname debug hostname s of
        Inl e \<Rightarrow> Inl e
      | Inr (Some request) \<Rightarrow> Inr (request, False, renew now request (setChannel request channel s))
      | Inr None \<Rightarrow>
          (case new_IncomingContactRequest debug hostname s of
             Inl e \<Rightarrow> Inl e
           | Inr (request, s1) \<Rightarrow> Inr (request, True, setChannel request channel s1)))"

text \<open>
  \<open>sender\<close> is the contact request channel that sent the signal, or \<open>None\<close> when
  the sender is no such channel. \<open>now1\<close> and \<open>now2\<close> are the clock readings of
  \<^verbatim>\<open>renew\<close> and \<^verbatim>\<open>save\<close>. Modelled from the spec: \<^verbatim>\<open>BUG()\<close>, a macro of the absent
  \<^verbatim>\<open>utils/Useful.h\<close>, logs the condition as a bug.
\<close>

definition requestReceived :: "bool \<Rightarrow> nat \<Rightarrow> nat \<Rightarrow> nat option \<Rightarrow> state \<Rightarrow> abort + state" where
  "requestReceived debug now1 now2 sender s =
     (case sender of
        None \<Rightarrow> Inr s
      | Some channel \<Rightarrow>
          let hostname = authenticatedIdentity (connections s (chan_connection (channels s channel)))
          in if hostname = [] \<or> \<not> endsWith hostname ''.onion''
             then Inr (setResponseStatus channel Error s)
             else if isHostnameRejected hostname s
             then Inr (setResponseStatus channel Rejected s)
             else if lookupIdentity hostname s
             then Inr (setResponseStatus channel Error s)
             else (case attachRequest debug now1 hostname channel s of
                     Inl e \<Rightarrow> Inl e
                   | Inr (request, newRequest, s1) \<Rightarrow>
                       if lookupHostname hostname s1 \<noteq> None then Inr s1
                       else
                         let s2 = save now2 request (setResponseStatus channel Pending s1)
                         in Inr (if newRequest
                                 then s2\<lparr>m_requests := m_requests s2 @ [request]\<rparr>
                                 else s2)))"

section \<open>Runs of the workflow\<close>

text \<open>
  What can happen between two moments: the operations of the manager and of a
  request, the two signal handlers, and the network, which replaces connection and
  channel objects at will.
\<close>

datatype event =
    RequestReceived nat nat "nat option"
  | Accept "nat option" nat
  | Reject nat
  | ChannelInvalidated nat nat
  | ConnectionClosed nat nat
  | Network "nat \<Rightarrow> Connection" "nat \<Rightarrow> ContactRequestChannel"

fun step :: "bool \<Rightarrow> event \<Rightarrow> state \<Rightarrow> abort + state" where
  "step debug (RequestReceived now1 now2 sender) s = requestReceived debug now1 now2 sender s"
| "step debug (Accept user r) s = accept debug user r s"
| "step debug (Reject r) s = Inr (reject r s)"
| "step debug (ChannelInvalidated r channel) s = Inr (channelInvalidated r channel s)"
| "step debug (ConnectionClosed r c) s = Inr (connectionClosed r c s)"
| "step debug (Network cs chs) s = Inr (s\<lparr>connections := cs, channels := chs\<rparr>)"

fun run :: "bool \<Rightarrow> event list \<Rightarrow> state \<Rightarrow> abort + state" where
  "run debug [] s = Inr s"
| "run debug (e # es) s = (case step debug e s of Inl a \<Rightarrow> Inl a | Inr s' \<Rightarrow> run debug es s')"

text \<open>
  The invariant of the active list, from the spec's data model: a hostname is unique
  among the active requests and carries the onion suffix; and every active request
  is an allocated object.
\<close>

definition wellformed :: "state \<Rightarrow> bool" where
  "wellformed s =
     (distinct (map (\<lambda>r. m_hostname (requests s r)) (m_requests s)) \<and>
      (\<forall>r \<in> set (m_requests s). r < next_request s) \<and>
      (\<forall>r \<in> set (m_requests s). endsWith (m_hostname (requests s r)) ''.onion''))"

section \<open>Concrete states\<close>

text \<open>
  The state at startup with nothing stored: no request, no contact, an empty
  blacklist; every connection object is unauthenticated and closed.
\<close>

definition emptyState :: state where
  "emptyState =
     \<lparr>connections = (\<lambda>c. \<lparr>purpose = Unknown, authenticatedIdentity = [], isConnected = False,
                           parent = DefaultOwner, requestChannels = []\<rparr>),
      channels = (\<lambda>ch. \<lparr>chan_connection = 0, chan_nickname = [], chan_message = [],
                         responseStatus = None\<rparr>),
      requests = (\<lambda>r. \<lparr>m_hostname = [], m_nickname = [], m_message = [], m_requestDate = None,
                         m_lastRequestDate = None, connection = None\<rparr>),
      next_request = 0, m_requests = [], settings = Map.empty, hostnameBlacklist = [],
      users = (\<lambda>u. \<lparr>user_nickname = [], user_hostname = [], user_connection = None\<rparr>),
      contacts = [], next_user = 0, identities = []\<rparr>"

text \<open>
  A peer connects: connection \<open>c\<close>, authenticated as \<open>hostname\<close>, with the contact
  request channel \<open>ch\<close> that carries a nickname and a message.
\<close>

definition inbound :: "nat \<Rightarrow> nat \<Rightarrow> string \<Rightarrow> string \<Rightarrow> string \<Rightarrow> state \<Rightarrow> state" where
  "inbound c ch hostname nickname message s =
     s\<lparr>connections := (connections s)(c :=
          \<lparr>purpose = Unknown, authenticatedIdentity = hostname, isConnected = True,
           parent = DefaultOwner, requestChannels = [ch]\<rparr>),
       channels := (channels s)(ch :=
          \<lparr>chan_connection = c, chan_nickname = nickname, chan_message = message,
           responseStatus = None\<rparr>)\<rparr>"

text \<open>Bob's hostname connects twice, on connections 11 and 12 with the channels 21 and
  22; the first request has been received at time 10.\<close>

definition bobConnects :: state where
  "bobConnects =
     inbound 12 22 ''bob.onion'' ''Bob'' ''hello again''
       (inbound 11 21 ''bob.onion'' ''Bob'' ''hello'' emptyState)"

definition bobPending :: state where
  "bobPending = projr (requestReceived True 10 10 (Some 21) bobConnects)"

text \<open>The same, but Bob's hostname is also one of the local identities.\<close>

definition bobLocal :: state where
  "bobLocal = bobPending\<lparr>identities := [''bob.onion'']\<rparr>"

text \<open>The operator has rejected Bob's request.\<close>

definition bobRejected :: state where
  "bobRejected = reject 0 bobPending"

text \<open>
  A request loaded at startup from a store that holds Alice's nickname and message;
  no connection is attached. In the second state the stored nickname is empty.
\<close>

definition aliceStored :: state where
  "aliceStored =
     projr (loadRequests True [''alice'']
       (emptyState\<lparr>settings := [''contactRequests.alice'' \<mapsto>
          \<lparr>stored_nickname = ''Alice'', stored_message = ''hi'',
           stored_requestDate = Some 1, stored_lastRequestDate = Some 1\<rparr>]\<rparr>))"

definition namelessStored :: state where
  "namelessStored =
     projr (loadRequests True [''alice'']
       (emptyState\<lparr>settings := [''contactRequests.alice'' \<mapsto>
          \<lparr>stored_nickname = [], stored_message = ''hi'',
           stored_requestDate = Some 1, stored_lastRequestDate = Some 1\<rparr>]\<rparr>))"

text \<open>
  A request loaded from a store that holds no dates, and its peer connecting again.
\<close>

definition daveLoaded :: state where
  "daveLoaded =
     inbound 11 21 ''dave.onion'' ''Dave'' ''hey''
       (projr (loadRequests True [''dave'']
          (emptyState\<lparr>settings := [''contactRequests.dave'' \<mapsto>
             \<lparr>stored_nickname = ''Dave'', stored_message = ''hey'',
              stored_requestDate = None, stored_lastRequestDate = None\<rparr>]\<rparr>)))"

text \<open>Carol is a known contact, and her hostname opens a contact request channel.\<close>

definition carolKnown :: state where
  "carolKnown =
     inbound 11 21 ''carol.onion'' ''Carol'' ''me again''
       (emptyState\<lparr>users := (users emptyState)(0 :=
            \<lparr>user_nickname = ''Carol'', user_hostname = ''carol.onion'', user_connection = None\<rparr>),
          contacts := [0], next_user := 1\<rparr>)"

text \<open>
  Bob has become a known contact by another way while his request is pending, and
  his hostname asks again on connection 12.
\<close>

definition bobBefriended :: state where
  "bobBefriended =
     bobPending\<lparr>users := (users bobPending)(0 :=
          \<lparr>user_nickname = ''Bob'', user_hostname = ''bob.onion'', user_connection = None\<rparr>),
       contacts := [0], next_user := 1\<rparr>"

section \<open>Properties of the wire format\<close>

lemma getUInt32_putUInt32: "getUInt32 (putUInt32 w) = w"
  unfolding getUInt32_def putUInt32_def
proof (simp, rule bit_word_eqI)
  fix n
  assume "n < LENGTH(32)"
  then show "bit (push_bit 24 (ucast (ucast (drop_bit 24 w) :: byte)) OR
                  push_bit 16 (ucast (ucast (drop_bit 16 w) :: byte)) OR
                  push_bit 8 (ucast (ucast (drop_bit 8 w) :: byte)) OR
                  ucast (ucast w :: byte) :: quint32) n = bit w n"
    by (cases "n < 8"; cases "n < 16"; cases "n < 24") (auto simp add: bit_simps)
qed

lemma length_putUInt32: "length (putUInt32 w) = 4"
  by (simp add: putUInt32_def)

lemma readUInt32_put: "readUInt32 (putUInt32 w @ bs, status) = (w, (bs, status))"
  by (simp add: readUInt32_def length_putUInt32 getUInt32_putUInt32)

lemma readUInt32_short:
  "length bs < 4 \<Longrightarrow> readUInt32 (bs, status) = (0, ([], setStatus ReadPastEnd status))"
  by (simp add: readUInt32_def)

lemma readUInt32_long:
  "4 \<le> length bs \<Longrightarrow> readUInt32 (bs, status) = (getUInt32 (take 4 bs), (drop 4 bs, status))"
  by (simp add: readUInt32_def)

text \<open>
  A \<^verbatim>\<open>QByteArray\<close> has an \<^verbatim>\<open>int\<close> size, so its length word is the length and is
  never the mark of the null array.
\<close>

lemma unat_length: "n < 2 ^ 31 \<Longrightarrow> unat (word_of_nat n :: quint32) = n"
  by (simp add: unat_of_nat)

lemma length_not_null: "n < 2 ^ 31 \<Longrightarrow> (word_of_nat n :: quint32) \<noteq> 0xFFFFFFFF"
proof
  assume a: "n < 2 ^ 31" and "(word_of_nat n :: quint32) = 0xFFFFFFFF"
  then have "unat (word_of_nat n :: quint32) = unat (0xFFFFFFFF :: quint32)" by simp
  with a show False by (simp add: unat_length)
qed

lemma process_payload:
  assumes "size_ba ba < 2 ^ 31"
  shows "process (putUInt32 w @ putByteArray ba) = ChatMessage w (constData ba)"
proof (cases ba)
  case Null
  then show ?thesis
    using readUInt32_put [where bs = "[]"]
    by (simp add: process_def readUInt32_put readByteArray_def)
next
  case (Bytes bs)
  with assms have n: "length bs < 2 ^ 31" by (simp add: size_ba_def)
  show ?thesis
    using Bytes length_not_null [OF n] unat_length [OF n]
    by (simp add: process_def readUInt32_put readByteArray_def)
qed

lemma drop_write_at: "length buf = pos \<Longrightarrow> drop pos (write_at pos data buf) = data"
  by (simp add: write_at_def)

text \<open>
  C6, as amended. For a text whose UTF-8 encoding is longer than
  \<open>maxCommandData - 6\<close>: with assertions compiled in, \<^verbatim>\<open>send\<close> aborts on the
  assertion and sends nothing; with assertions compiled out, it sends the command
  with the text cut to exactly \<open>maxCommandData - 6\<close> bytes. A text at or under the
  limit is sent whole in both builds.
\<close>

theorem send_oversize:
  assumes "6 \<le> maxCommandData"
  shows "(maxCommandData - 6 < size_ba encodedText \<longrightarrow>
            send True maxCommandData prepareCommand secs encodedText = Inl AssertionFailed \<and>
            send False maxCommandData prepareCommand secs encodedText =
              Inr (write_at 6 (putUInt32 (word_of_int secs)
                     @ putByteArray (Bytes (take (nat (maxCommandData - 6)) (constData encodedText))))
                     (prepareCommand 0 maxCommandData)) \<and>
            int (length (take (nat (maxCommandData - 6)) (constData encodedText))) = maxCommandData - 6) \<and>
         (size_ba encodedText \<le> maxCommandData - 6 \<longrightarrow>
            send debug maxCommandData prepareCommand secs encodedText =
              Inr (write_at 6 (putUInt32 (word_of_int secs) @ putByteArray encodedText)
                     (prepareCommand 0 (size_ba encodedText + 6))))"
  using assms by (auto simp add: send_def Let_def resize_def size_ba_def)

theorem send_oversize_witness:
  "(6::int) \<le> 10 \<and> 10 - 6 < size_ba (Bytes [1, 2, 3, 4, 5]) \<and>
   send True 10 prepareHeader 3 (Bytes [1, 2, 3, 4, 5]) = Inl AssertionFailed \<and>
   send False 10 prepareHeader 3 (Bytes [1, 2, 3, 4, 5])
     = Inr [0, 0, 0x10, 0, 0, 0, 0, 0, 0, 3, 0, 0, 0, 4, 1, 2, 3, 4] \<and>
   size_ba (Bytes [1, 2, 3, 4]) \<le> 10 - 6 \<and>
   send True 10 prepareHeader 3 (Bytes [1, 2, 3, 4])
     = Inr [0, 0, 0x10, 0, 0, 0, 0, 0, 0, 3, 0, 0, 0, 4, 1, 2, 3, 4]"
  using send_oversize [of 10 "Bytes [1, 2, 3, 4, 5]" prepareHeader 3 True]
    send_oversize [of 10 "Bytes [1, 2, 3, 4]" prepareHeader 3 True]
  by (simp add: size_ba_def write_at_def putUInt32_def prepareHeader_def)

text \<open>
  C6 as stated fails where assertions are compiled in: a text of five bytes against
  a limit of four is not sent cut to four bytes, nothing is sent.
\<close>

theorem send_oversize_counterexample:
  "10 - 6 < size_ba (Bytes [1, 2, 3, 4, 5]) \<and>
   send True 10 prepareHeader 3 (Bytes [1, 2, 3, 4, 5]) = Inl AssertionFailed"
  by (simp add: send_def size_ba_def)

text \<open>
  C7. \<^verbatim>\<open>process\<close> returns on every byte sequence: when the fields do not parse in
  their order the command is logged as invalid and dropped, and otherwise the
  message is logged with its time delta and text; there is no third outcome.
\<close>

theorem process_total:
  "(\<not> fieldsParse d \<longrightarrow> process d = InvalidCommand) \<and>
   (fieldsParse d \<longrightarrow> process d = ChatMessage (getUInt32 (take 4 d))
        (if declaredLength d = 0xFFFFFFFF then [] else take (unat (declaredLength d)) (drop 8 d)))"
proof (cases "length d < 4")
  case True
  then show ?thesis
    by (simp add: process_def readByteArray_def readUInt32_short fieldsParse_def setStatus_def)
next
  case four: False
  show ?thesis
  proof (cases "length d < 8")
    case True
    with four show ?thesis
      by (simp add: process_def readByteArray_def readUInt32_short readUInt32_long
          fieldsParse_def setStatus_def)
  next
    case False
    with four show ?thesis
      by (simp add: process_def readByteArray_def readUInt32_long fieldsParse_def
          setStatus_def declaredLength_def)
  qed
qed

theorem process_total_witness:
  "\<not> fieldsParse [0, 0, 0, 3, 0, 0, 0, 2, 65] \<and>
   process [0, 0, 0, 3, 0, 0, 0, 2, 65] = InvalidCommand \<and>
   fieldsParse [0, 0, 0, 3, 0, 0, 0, 2, 65, 66] \<and>
   process [0, 0, 0, 3, 0, 0, 0, 2, 65, 66] = ChatMessage 3 [65, 66]"
  using process_total [of "[0, 0, 0, 3, 0, 0, 0, 2, 65]"]
    process_total [of "[0, 0, 0, 3, 0, 0, 0, 2, 65, 66]"]
  by (simp add: fieldsParse_def declaredLength_def getUInt32_def)

text \<open>
  C8. For every second delta and every encoded text within the size limit, in
  either build, \<^verbatim>\<open>process\<close> applied to the payload that \<^verbatim>\<open>send\<close> wrote behind the
  six header bytes logs the same delta, as a 32-bit unsigned value, and the same
  text bytes. \<open>maxCommandData\<close> is an \<^verbatim>\<open>int\<close>, and \<^verbatim>\<open>prepareCommand\<close> leaves the six
  header bytes in the buffer.
\<close>

theorem send_process_roundtrip:
  assumes "size_ba encodedText \<le> maxCommandData - 6"
    and "maxCommandData \<le> 2 ^ 31 - 1"
    and "length (prepareCommand 0 (size_ba encodedText + 6)) = 6"
  shows "\<exists>commandBuffer.
           send debug maxCommandData prepareCommand secs encodedText = Inr commandBuffer \<and>
           process (drop 6 commandBuffer) = ChatMessage (word_of_int secs) (constData encodedText)"
proof -
  from assms(1,2) have "size_ba encodedText < 2 ^ 31" by simp
  then have "process (putUInt32 (word_of_int secs) @ putByteArray encodedText)
               = ChatMessage (word_of_int secs) (constData encodedText)"
    by (rule process_payload)
  with assms(1,3) show ?thesis
    by (simp add: send_def Let_def drop_write_at)
qed

theorem send_process_roundtrip_witness:
  "size_ba (Bytes [104, 105]) \<le> 65535 - 6 \<and> (65535::int) \<le> 2 ^ 31 - 1 \<and>
   length (prepareHeader 0 (size_ba (Bytes [104, 105]) + 6)) = 6 \<and>
   (\<exists>commandBuffer.
      send True 65535 prepareHeader (-1) (Bytes [104, 105]) = Inr commandBuffer \<and>
      process (drop 6 commandBuffer) = ChatMessage (- 1) [104, 105])"
  using send_process_roundtrip [of "Bytes [104, 105]" 65535 prepareHeader True "-1"]
  by (simp add: size_ba_def prepareHeader_def)

section \<open>Properties of the contact request workflow\<close>

lemmas collaborator_defs = setResponseStatus_def close_def setPurpose_def setParent_def
  findChannel_def lookupHostname_def addContact_def setHostname_def assignConnection_def
  lookupIdentity_def

lemmas request_defs = save_def renew_def removeRequest_def setMessage_def setNickname_def
  setConnection_def

lemmas state_defs = emptyState_def inbound_def bobConnects_def

lemmas run_defs = requestReceived_def attachRequest_def requestFromHostname_def
  new_IncomingContactRequest_def setChannel_def isHostnameRejected_def
  collaborator_defs request_defs endsWith_def toLower_def toLower_char_def Let_def
  settingsKey_def chop_def

lemma endsWith_nonempty: "endsWith h ''.onion'' \<Longrightarrow> h \<noteq> []"
  by (auto simp add: endsWith_def)

lemma setChannel_frame:
  "channels (setChannel r ch s) = channels s"
  "m_requests (setChannel r ch s) = m_requests s"
  "settings (setChannel r ch s) = settings s"
  "hostnameBlacklist (setChannel r ch s) = hostnameBlacklist s"
  "users (setChannel r ch s) = users s"
  "contacts (setChannel r ch s) = contacts s"
  "next_user (setChannel r ch s) = next_user s"
  "next_request (setChannel r ch s) = next_request s"
  "identities (setChannel r ch s) = identities s"
  by (simp_all add: setChannel_def Let_def collaborator_defs request_defs split: option.split)

lemma setChannel_requests:
  "r' \<noteq> r \<Longrightarrow> requests (setChannel r ch s) r' = requests s r'"
  "m_hostname (requests (setChannel r ch s) r') = m_hostname (requests s r')"
  "m_requestDate (requests (setChannel r ch s) r') = m_requestDate (requests s r')"
  "m_lastRequestDate (requests (setChannel r ch s) r') = m_lastRequestDate (requests s r')"
  by (simp_all add: setChannel_def Let_def collaborator_defs request_defs split: option.split)

lemma attachRequest_frame:
  assumes "attachRequest debug now hostname channel s = Inr (request, newRequest, s1)"
  shows "channels s1 = channels s" "m_requests s1 = m_requests s" "settings s1 = settings s"
    "hostnameBlacklist s1 = hostnameBlacklist s" "users s1 = users s" "contacts s1 = contacts s"
    "next_user s1 = next_user s" "identities s1 = identities s"
  using assms
  by (auto simp add: attachRequest_def requestFromHostname_def new_IncomingContactRequest_def
      setChannel_frame renew_def split: if_splits option.splits)

lemma requestReceived_blacklist:
  assumes "requestReceived debug now1 now2 sender s = Inr s'"
  shows "hostnameBlacklist s' = hostnameBlacklist s"
proof (cases sender)
  case None
  with assms show ?thesis by (simp add: requestReceived_def)
next
  case (Some channel)
  with assms show ?thesis
    by (auto simp add: requestReceived_def Let_def setResponseStatus_def save_def
        split: if_splits sum.splits dest!: attachRequest_frame(4))
qed

lemma accept_blacklist:
  assumes "accept debug user r s = Inr s'"
  shows "hostnameBlacklist s' = hostnameBlacklist s"
proof -
  have a: "hostnameBlacklist (accept_connection u r t) = hostnameBlacklist t" for u t
    by (simp add: accept_connection_def Let_def collaborator_defs request_defs
        split: option.split list.split)
  have b: "accept_user debug user r s = Inr (u, t) \<Longrightarrow> hostnameBlacklist t = hostnameBlacklist s" for u t
    by (auto simp add: accept_user_def collaborator_defs split: option.splits if_splits)
  from assms show ?thesis
    by (auto simp add: accept_def a manager_removeRequest_def removeRequest_def
        split: sum.splits dest: b)
qed

lemma reject_fields:
  "hostnameBlacklist (reject r s) = hostnameBlacklist (addRejectedHost (m_hostname (requests s r)) s)"
  "settings (reject r s) = (settings s)(settingsKey (m_hostname (requests s r)) := None)"
  "m_requests (reject r s) = remove1 r (m_requests s)"
  by (simp_all add: reject_def Let_def addRejectedHost_def manager_removeRequest_def
      collaborator_defs request_defs split: option.split list.split)

lemma addRejectedHost_member:
  "set (hostnameBlacklist (addRejectedHost h s)) = insert h (set (hostnameBlacklist s))"
  by (auto simp add: addRejectedHost_def Let_def)

lemma step_blacklist:
  assumes "step debug e s = Inr s'"
  shows "set (hostnameBlacklist s) \<subseteq> set (hostnameBlacklist s')"
proof (cases e)
  case (RequestReceived now1 now2 sender)
  with assms show ?thesis by (simp add: requestReceived_blacklist)
next
  case (Accept user r)
  with assms show ?thesis by (simp add: accept_blacklist)
next
  case (Reject r)
  with assms show ?thesis by (auto simp add: reject_fields addRejectedHost_member)
next
  case (ChannelInvalidated r channel)
  with assms show ?thesis by (auto simp add: channelInvalidated_def Let_def close_def)
next
  case (ConnectionClosed r c)
  with assms show ?thesis by (auto simp add: connectionClosed_def setConnection_def)
next
  case (Network cs chs)
  with assms show ?thesis by auto
qed

lemma run_blacklist:
  "run debug es s = Inr s' \<Longrightarrow> set (hostnameBlacklist s) \<subseteq> set (hostnameBlacklist s')"
proof (induction es arbitrary: s)
  case Nil
  then show ?case by simp
next
  case (Cons e es)
  then obtain t where t: "step debug e s = Inr t" and r: "run debug es t = Inr s'"
    by (auto split: sum.splits)
  from step_blacklist [OF t] Cons.IH [OF r] show ?case by blast
qed

lemma find_only: "filter P xs = [r] \<Longrightarrow> List.find P xs = Some r"
  by (induction xs) (auto split: if_splits)

lemma lookupHostname_frame:
  "users t = users s \<Longrightarrow> contacts t = contacts s \<Longrightarrow> lookupHostname h t = lookupHostname h s"
  by (simp add: lookupHostname_def)

lemma requestReceived_existing:
  assumes "authenticatedIdentity (connections s (chan_connection (channels s channel))) = H"
    and "endsWith H ''.onion''" and "debug \<longrightarrow> H = toLower H"
    and "H \<notin> set (hostnameBlacklist s)" and "H \<notin> set (identities s)"
    and "List.find (\<lambda>r'. m_hostname (requests s r') = H) (m_requests s) = Some r"
  shows "requestReceived debug now1 now2 (Some channel) s =
           (if lookupHostname H s \<noteq> None then Inr (renew now1 r (setChannel r channel s))
            else Inr (save now2 r (setResponseStatus channel Pending
                        (renew now1 r (setChannel r channel s)))))"
proof -
  have a: "attachRequest debug now1 H channel s = Inr (r, False, renew now1 r (setChannel r channel s))"
    using assms(2,3,6) by (auto simp add: attachRequest_def requestFromHostname_def)
  have b: "lookupHostname H (renew now1 r (setChannel r channel s)) = lookupHostname H s"
    by (rule lookupHostname_frame) (simp_all add: renew_def setChannel_frame)
  from assms(1,2,4,5) endsWith_nonempty [OF assms(2)] show ?thesis
    by (simp add: requestReceived_def Let_def isHostnameRejected_def lookupIdentity_def a b)
qed

lemma requestReceived_new:
  assumes "authenticatedIdentity (connections s (chan_connection (channels s channel))) = H"
    and "endsWith H ''.onion''" and "debug \<longrightarrow> H = toLower H"
    and "H \<notin> set (hostnameBlacklist s)" and "H \<notin> set (identities s)"
    and "List.find (\<lambda>r'. m_hostname (requests s r') = H) (m_requests s) = None"
    and "new_IncomingContactRequest debug H s = Inr (r, s0)"
  shows "requestReceived debug now1 now2 (Some channel) s =
           (if lookupHostname H s \<noteq> None then Inr (setChannel r channel s0)
            else Inr ((save now2 r (setResponseStatus channel Pending (setChannel r channel s0)))
                   \<lparr>m_requests := m_requests s @ [r]\<rparr>))"
proof -
  have a: "attachRequest debug now1 H channel s = Inr (r, True, setChannel r channel s0)"
    using assms(2,3,6,7) by (auto simp add: attachRequest_def requestFromHostname_def)
  have c: "users s0 = users s" "contacts s0 = contacts s" "m_requests s0 = m_requests s"
    using assms(7) by (auto simp add: new_IncomingContactRequest_def split: if_splits)
  have b: "lookupHostname H (setChannel r channel s0) = lookupHostname H s"
    by (rule lookupHostname_frame) (simp_all add: setChannel_frame c)
  from assms(1,2,4,5) endsWith_nonempty [OF assms(2)] show ?thesis
    by (simp add: requestReceived_def Let_def isHostnameRejected_def lookupIdentity_def a b
        save_def setResponseStatus_def setChannel_frame c)
qed

subsection \<open>The invariant of the active list\<close>

text \<open>
  Every event keeps the hostnames of the active list unique and onion-suffixed, so
  the states that the workflow reaches from a well-formed one have at most one
  record for a hostname and no request twice in the list.
\<close>

lemma wellformed_frame:
  assumes "wellformed s" and "m_requests t = m_requests s"
    and "\<forall>r \<in> set (m_requests s). m_hostname (requests t r) = m_hostname (requests s r)"
    and "next_request s \<le> next_request t"
  shows "wellformed t"
proof -
  have m: "map (\<lambda>r. m_hostname (requests t r)) (m_requests s)
          = map (\<lambda>r. m_hostname (requests s r)) (m_requests s)"
    using assms(3) by simp
  from assms(1) have "distinct (map (\<lambda>r. m_hostname (requests s r)) (m_requests s))"
    by (simp add: wellformed_def)
  then have d: "distinct (map (\<lambda>r. m_hostname (requests t r)) (m_requests t))"
    by (simp only: assms(2) m)
  have n: "r < next_request t" if "r \<in> set (m_requests t)" for r
  proof -
    from that assms(1,2) have "r < next_request s" by (simp add: wellformed_def)
    with assms(4) show ?thesis by simp
  qed
  have "endsWith (m_hostname (requests t r)) ''.onion''" if "r \<in> set (m_requests t)" for r
    using that assms(1,2,3) by (simp add: wellformed_def)
  with d n show ?thesis by (simp add: wellformed_def)
qed

lemma distinct_map_remove1: "distinct (map f xs) \<Longrightarrow> distinct (map f (remove1 x xs))"
proof (induction xs)
  case Nil
  then show ?case by simp
next
  case (Cons a xs)
  have "set (remove1 x xs) \<subseteq> set xs" by (rule set_remove1_subset)
  with Cons show ?case by auto
qed

lemma wellformed_remove:
  assumes "wellformed s" and "m_requests t = remove1 r (m_requests s)"
    and "\<forall>r \<in> set (m_requests s). m_hostname (requests t r) = m_hostname (requests s r)"
    and "next_request s \<le> next_request t"
  shows "wellformed t"
proof -
  have sub: "set (remove1 r (m_requests s)) \<subseteq> set (m_requests s)" by (rule set_remove1_subset)
  then have m: "map (\<lambda>r. m_hostname (requests t r)) (remove1 r (m_requests s))
          = map (\<lambda>r. m_hostname (requests s r)) (remove1 r (m_requests s))"
    using assms(3) by auto
  from assms(1) have "distinct (map (\<lambda>r. m_hostname (requests s r)) (remove1 r (m_requests s)))"
    by (simp add: wellformed_def distinct_map_remove1)
  then have d: "distinct (map (\<lambda>r. m_hostname (requests t r)) (m_requests t))"
    by (simp only: assms(2) m)
  have n: "r' < next_request t" if "r' \<in> set (m_requests t)" for r'
  proof -
    from that assms(2) sub have "r' \<in> set (m_requests s)" by auto
    with assms(1) have "r' < next_request s" by (simp add: wellformed_def)
    with assms(4) show ?thesis by simp
  qed
  have "endsWith (m_hostname (requests t r')) ''.onion''" if "r' \<in> set (m_requests t)" for r'
  proof -
    from that assms(2) sub have "r' \<in> set (m_requests s)" by auto
    with assms(1,3) show ?thesis by (simp add: wellformed_def)
  qed
  with d n show ?thesis by (simp add: wellformed_def)
qed

lemma find_None_hosts:
  "List.find (\<lambda>r'. m_hostname (requests s r') = H) (m_requests s) = None \<Longrightarrow>
   H \<notin> set (map (\<lambda>r. m_hostname (requests s r)) (m_requests s))"
  by (auto simp add: find_None_iff)

lemma save_frame:
  "m_requests (save now r s) = m_requests s" "next_request (save now r s) = next_request s"
  "m_hostname (requests (save now r s) r') = m_hostname (requests s r')"
  by (simp_all add: save_def Let_def)

lemma requestReceived_wellformed:
  assumes "requestReceived debug now1 now2 sender s = Inr s'" and wf: "wellformed s"
  shows "wellformed s'"
proof (cases sender)
  case None
  with assms show ?thesis by (simp add: requestReceived_def)
next
  case (Some channel)
  define H where "H = authenticatedIdentity (connections s (chan_connection (channels s channel)))"
  consider (reply) st where "s' = setResponseStatus channel st s"
    | (attach) r newRequest s1 where "attachRequest debug now1 H channel s = Inr (r, newRequest, s1)"
        "s' = s1 \<or> s' = (let s2 = save now2 r (setResponseStatus channel Pending s1)
                          in if newRequest then s2\<lparr>m_requests := m_requests s2 @ [r]\<rparr> else s2)"
        "endsWith H ''.onion''"
    using assms(1) Some
    by (auto simp add: requestReceived_def Let_def H_def split: if_splits sum.splits)
  then show ?thesis
  proof cases
    case reply
    with wf show ?thesis by (simp add: wellformed_def setResponseStatus_def)
  next
    case attach
    show ?thesis
    proof (cases "List.find (\<lambda>r'. m_hostname (requests s r') = H) (m_requests s)")
      case (Some r0)
      with attach(1) have s1: "r = r0" "\<not> newRequest" "s1 = renew now1 r (setChannel r channel s)"
        by (auto simp add: attachRequest_def requestFromHostname_def split: if_splits)
      have wf1: "wellformed s1"
        using wf by (rule wellformed_frame)
          (simp_all add: s1 renew_def setChannel_frame setChannel_requests)
      have "wellformed (save now2 r (setResponseStatus channel Pending s1))"
        using wf1 by (rule wellformed_frame) (simp_all add: save_frame setResponseStatus_def)
      with wf1 attach(2) s1(2) show ?thesis by (auto simp add: Let_def)
    next
      case None
      define s0 where "s0 = s\<lparr>requests := (requests s)(next_request s :=
              \<lparr>m_hostname = H, m_nickname = [], m_message = [], m_requestDate = None,
               m_lastRequestDate = None, connection = None\<rparr>),
            next_request := Suc (next_request s)\<rparr>"
      from None attach(1) have s1: "r = next_request s" "newRequest" "s1 = setChannel r channel s0"
        by (auto simp add: attachRequest_def requestFromHostname_def new_IncomingContactRequest_def
            s0_def split: if_splits)
      have old: "\<forall>r' \<in> set (m_requests s). r' \<noteq> r"
        using wf s1(1) by (auto simp add: wellformed_def)
      have wf1: "wellformed s1"
        using wf
      proof (rule wellformed_frame)
        show "\<forall>r' \<in> set (m_requests s). m_hostname (requests s1 r') = m_hostname (requests s r')"
          using old s1(1) by (auto simp add: s1(3) setChannel_requests s0_def)
      qed (simp_all add: s1 setChannel_frame s0_def)
      have h: "m_hostname (requests s1 r) = H"
        by (simp add: s1(3) setChannel_requests) (simp add: s0_def s1(1))
      have fresh: "H \<notin> set (map (\<lambda>r. m_hostname (requests s1 r)) (m_requests s1))"
      proof -
        have "map (\<lambda>r. m_hostname (requests s1 r)) (m_requests s1)
                = map (\<lambda>r. m_hostname (requests s r)) (m_requests s)"
          using old s1(1) by (auto simp add: s1(3) setChannel_requests setChannel_frame s0_def)
        with find_None_hosts [OF None] show ?thesis by simp
      qed
      have n: "next_request s1 = Suc r" "m_requests s1 = m_requests s"
        by (simp_all add: s1(3) setChannel_frame s0_def s1(1))
      let ?s2 = "save now2 r (setResponseStatus channel Pending s1)"
      have "wellformed (?s2\<lparr>m_requests := m_requests ?s2 @ [r]\<rparr>)"
        using wf1 h fresh n attach(3)
        by (auto simp add: wellformed_def save_frame setResponseStatus_def)
      with wf1 attach(2) s1(2) show ?thesis by (auto simp add: Let_def)
    qed
  qed
qed

lemma accept_wellformed:
  assumes "accept debug user r s = Inr s'" and wf: "wellformed s"
  shows "wellformed s'"
proof -
  from assms(1) obtain u s1 where u: "accept_user debug user r s = Inr (u, s1)"
    and s': "s' = manager_removeRequest r (removeRequest r (accept_connection u r s1))"
    by (auto simp add: accept_def split: sum.splits)
  from u have s1: "requests s1 = requests s" "m_requests s1 = m_requests s"
    "next_request s1 = next_request s"
    by (auto simp add: accept_user_def collaborator_defs split: option.splits if_splits)
  have c: "m_requests (accept_connection u r s1) = m_requests s1"
    "next_request (accept_connection u r s1) = next_request s1"
    "m_hostname (requests (accept_connection u r s1) r') = m_hostname (requests s1 r')" for r'
    by (simp_all add: accept_connection_def Let_def collaborator_defs request_defs
        split: option.split list.split)
  have "m_requests s' = remove1 r (m_requests s)" "next_request s \<le> next_request s'"
    "m_hostname (requests s' r') = m_hostname (requests s r')" for r'
    by (simp_all add: s' manager_removeRequest_def removeRequest_def c s1)
  with wellformed_remove [OF wf, of s' r] show ?thesis
    by simp
qed

lemma reject_wellformed:
  assumes wf: "wellformed s"
  shows "wellformed (reject r s)"
proof -
  have "next_request (reject r s) = next_request s"
    "m_hostname (requests (reject r s) r') = m_hostname (requests s r')" for r'
    by (simp_all add: reject_def Let_def addRejectedHost_def manager_removeRequest_def
        collaborator_defs request_defs split: option.split list.split)
  with wellformed_remove [OF wf, of "reject r s" r] show ?thesis
    by (simp add: reject_fields)
qed

lemma step_wellformed:
  assumes "step debug e s = Inr s'" and wf: "wellformed s"
  shows "wellformed s'"
proof (cases e)
  case (RequestReceived now1 now2 sender)
  with assms show ?thesis by (simp add: requestReceived_wellformed)
next
  case (Accept user r)
  with assms show ?thesis by (simp add: accept_wellformed)
next
  case (Reject r)
  with assms show ?thesis by (auto simp add: reject_wellformed)
next
  case (ChannelInvalidated r channel)
  with assms show ?thesis
    by (auto simp add: channelInvalidated_def Let_def close_def wellformed_def)
next
  case (ConnectionClosed r c)
  have "wellformed (setConnection r None s)"
    using wf by (rule wellformed_frame) (simp_all add: setConnection_def)
  with ConnectionClosed assms show ?thesis
    by (auto simp add: connectionClosed_def split: if_splits)
next
  case (Network cs chs)
  with assms show ?thesis by (auto simp add: wellformed_def)
qed

lemma run_wellformed:
  "run debug es s = Inr s' \<Longrightarrow> wellformed s \<Longrightarrow> wellformed s'"
proof (induction es arbitrary: s)
  case Nil
  then show ?case by simp
next
  case (Cons e es)
  then obtain t where t: "step debug e s = Inr t" and r: "run debug es t = Inr s'"
    by (auto split: sum.splits)
  from step_wellformed [OF t Cons.prems(2)] Cons.IH [OF r] show ?case by blast
qed

lemma wellformed_emptyState: "wellformed emptyState"
  by (simp add: wellformed_def emptyState_def)

lemma wellformed_distinct: "wellformed s \<Longrightarrow> distinct (m_requests s)"
  by (simp add: wellformed_def distinct_map)

lemma distinct_map_filter:
  "distinct (map f xs) \<Longrightarrow> r \<in> set xs \<Longrightarrow> filter (\<lambda>x. f x = f r) xs = [r]"
proof (induction xs)
  case Nil
  then show ?case by simp
next
  case (Cons a xs)
  show ?case
  proof (cases "a = r")
    case True
    with Cons.prems(1) have "f r \<notin> f ` set xs" by simp
    then have "\<forall>x \<in> set xs. f x \<noteq> f r" by (metis imageI)
    then have "filter (\<lambda>x. f x = f r) xs = []" by (simp add: filter_empty_conv)
    with True show ?thesis by simp
  next
    case False
    with Cons.prems have "r \<in> set xs" "f a \<noteq> f r" by auto
    with Cons show ?thesis by simp
  qed
qed

lemma wellformed_onion:
  "wellformed s \<Longrightarrow> r \<in> set (m_requests s) \<Longrightarrow> endsWith (m_hostname (requests s r)) ''.onion''"
  by (simp add: wellformed_def)

lemma wellformed_only:
  "wellformed s \<Longrightarrow> r \<in> set (m_requests s) \<Longrightarrow>
   filter (\<lambda>r'. m_hostname (requests s r') = m_hostname (requests s r)) (m_requests s) = [r]"
  using distinct_map_filter [of "\<lambda>r. m_hostname (requests s r)" "m_requests s" r]
  by (simp add: wellformed_def)

subsection \<open>The concrete states\<close>

lemma bobPending_eval:
  "requestReceived True 10 10 (Some 21) bobConnects = Inr bobPending"
  by (simp add: bobPending_def run_defs state_defs)

lemma bobPending_fields:
  "m_requests bobPending = [0]"
  "requests bobPending 0 = \<lparr>m_hostname = ''bob.onion'', m_nickname = ''Bob'', m_message = ''hello'',
     m_requestDate = Some 10, m_lastRequestDate = Some 10, connection = Some 11\<rparr>"
  "hostnameBlacklist bobPending = []"
  "identities bobPending = []"
  "contacts bobPending = []"
  "connections bobPending 12 = \<lparr>purpose = Unknown, authenticatedIdentity = ''bob.onion'', isConnected = True,
           parent = DefaultOwner, requestChannels = [22]\<rparr>"
  "connections bobPending 11 = \<lparr>purpose = InboundRequest, authenticatedIdentity = ''bob.onion'', isConnected = True,
           parent = RequestOwner 0, requestChannels = [21]\<rparr>"
  "channels bobPending 22 = \<lparr>chan_connection = 12, chan_nickname = ''Bob'', chan_message = ''hello again'',
           responseStatus = None\<rparr>"
  "channels bobPending 21 = \<lparr>chan_connection = 11, chan_nickname = ''Bob'', chan_message = ''hello'',
           responseStatus = Some Pending\<rparr>"
  "settings bobPending ''contactRequests.bob'' = Some \<lparr>stored_nickname = ''Bob'', stored_message = ''hello'',
     stored_requestDate = Some 10, stored_lastRequestDate = Some 10\<rparr>"
  by (simp_all add: bobPending_def run_defs state_defs)

lemma bobRejected_fields:
  "hostnameBlacklist bobRejected = [''bob.onion'']"
  "m_requests bobRejected = []"
  "connections bobRejected 12 = connections bobPending 12"
  "channels bobRejected 22 = channels bobPending 22"
  by (simp_all add: bobRejected_def reject_def addRejectedHost_def manager_removeRequest_def
      bobPending_fields collaborator_defs request_defs Let_def)

lemma bobLocal_eval:
  "requestReceived True 20 21 (Some 22) bobLocal = Inr (setResponseStatus 22 Error bobLocal)"
  by (simp add: requestReceived_def Let_def bobLocal_def bobPending_fields endsWith_def
      isHostnameRejected_def lookupIdentity_def)

lemmas load_defs = loadRequest_def load_def new_IncomingContactRequest_def setNickname_def
  setMessage_def settingsKey_def chop_def endsWith_def Let_def emptyState_def

lemma aliceStored_fields:
  "m_requests aliceStored = [0]" "next_user aliceStored = 0" "contacts aliceStored = []"
  "requests aliceStored 0 =
     \<lparr>m_hostname = ''alice.onion'', m_nickname = ''Alice'', m_message = ''hi'',
      m_requestDate = Some 1, m_lastRequestDate = Some 1, connection = None\<rparr>"
  by (simp_all add: aliceStored_def load_defs)

lemma namelessStored_fields:
  "m_requests namelessStored = [0]" "next_user namelessStored = 0" "contacts namelessStored = []"
  "requests namelessStored 0 =
     \<lparr>m_hostname = ''alice.onion'', m_nickname = [], m_message = ''hi'',
      m_requestDate = Some 1, m_lastRequestDate = Some 1, connection = None\<rparr>"
  by (simp_all add: namelessStored_def load_defs)

lemma daveLoaded_fields:
  "m_requests daveLoaded = [0]" "next_request daveLoaded = 1"
  "hostnameBlacklist daveLoaded = []" "identities daveLoaded = []" "contacts daveLoaded = []"
  "requests daveLoaded 0 =
     \<lparr>m_hostname = ''dave.onion'', m_nickname = ''Dave'', m_message = ''hey'',
      m_requestDate = None, m_lastRequestDate = None, connection = None\<rparr>"
  "connections daveLoaded 11 =
     \<lparr>purpose = Unknown, authenticatedIdentity = ''dave.onion'', isConnected = True,
      parent = DefaultOwner, requestChannels = [21]\<rparr>"
  "channels daveLoaded 21 =
     \<lparr>chan_connection = 11, chan_nickname = ''Dave'', chan_message = ''hey'',
      responseStatus = None\<rparr>"
  by (simp_all add: daveLoaded_def inbound_def load_defs)

lemma daveLoaded_eval:
  "requestReceived True 20 21 (Some 21) daveLoaded =
     Inr (save 21 0 (setResponseStatus 21 Pending (renew 20 0 (setChannel 0 21 daveLoaded))))"
proof -
  have "requestReceived True 20 21 (Some 21) daveLoaded =
          (if lookupHostname ''dave.onion'' daveLoaded \<noteq> None
           then Inr (renew 20 0 (setChannel 0 21 daveLoaded))
           else Inr (save 21 0 (setResponseStatus 21 Pending
                       (renew 20 0 (setChannel 0 21 daveLoaded)))))"
    by (rule requestReceived_existing)
      (simp_all add: daveLoaded_fields endsWith_def toLower_def toLower_char_def)
  then show ?thesis by (simp add: lookupHostname_def daveLoaded_fields)
qed

lemma bobBefriended_eval:
  "requestReceived True 20 21 (Some 22) bobBefriended = Inr (renew 20 0 (setChannel 0 22 bobBefriended))"
proof -
  have "requestReceived True 20 21 (Some 22) bobBefriended =
          (if lookupHostname ''bob.onion'' bobBefriended \<noteq> None
           then Inr (renew 20 0 (setChannel 0 22 bobBefriended))
           else Inr (save 21 0 (setResponseStatus 22 Pending
                       (renew 20 0 (setChannel 0 22 bobBefriended)))))"
    by (rule requestReceived_existing)
      (simp_all add: bobBefriended_def bobPending_fields endsWith_def toLower_def toLower_char_def)
  then show ?thesis by (simp add: lookupHostname_def bobBefriended_def)
qed

lemma bobBefriended_fields:
  "requests bobBefriended = requests bobPending"
  "connections bobBefriended = connections bobPending"
  "channels bobBefriended = channels bobPending"
  "m_requests bobBefriended = m_requests bobPending"
  by (simp_all add: bobBefriended_def)

subsection \<open>The properties of the specification\<close>

text \<open>
  C1. The claim is what the refusals next to this one do: the blacklist and the
  local identity checks reply and change nothing. \<^verbatim>\<open>requestReceived\<close> makes the
  known-contact check, which it logs as a bug, only after \<^verbatim>\<open>setChannel\<close> and
  \<^verbatim>\<open>renew\<close> have run, and so breaks the claim. Carol is a known contact without an
  active request: her contact request gets no reply and no entry in the active list,
  but her connection is left claimed as \<open>InboundRequest\<close> and owned by a newly
  created request object that holds the connection, the nickname and the message.
  Bob is a known contact with an active request: his further request gets no reply
  either, but the record is renewed, its nickname and message are replaced, its
  live connection is closed and the new connection is claimed and attached.
\<close>

theorem known_contact_request_failing_input:
  "lookupHostname ''carol.onion'' carolKnown = Some 0 \<and>
   authenticatedIdentity (connections carolKnown (chan_connection (channels carolKnown 21)))
     = ''carol.onion'' \<and>
   purpose (connections carolKnown 11) = Unknown \<and>
   parent (connections carolKnown 11) = DefaultOwner \<and>
   next_request carolKnown = 0 \<and>
   \<not> isl (requestReceived True 20 21 (Some 21) carolKnown) \<and>
   responseStatus (channels (projr (requestReceived True 20 21 (Some 21) carolKnown)) 21) = None \<and>
   m_requests (projr (requestReceived True 20 21 (Some 21) carolKnown)) = [] \<and>
   purpose (connections (projr (requestReceived True 20 21 (Some 21) carolKnown)) 11)
     = InboundRequest \<and>
   parent (connections (projr (requestReceived True 20 21 (Some 21) carolKnown)) 11)
     = RequestOwner 0 \<and>
   next_request (projr (requestReceived True 20 21 (Some 21) carolKnown)) = 1 \<and>
   requests (projr (requestReceived True 20 21 (Some 21) carolKnown)) 0 =
     \<lparr>m_hostname = ''carol.onion'', m_nickname = ''Carol'', m_message = ''me again'',
      m_requestDate = None, m_lastRequestDate = None, connection = Some 11\<rparr> \<and>
   lookupHostname ''bob.onion'' bobBefriended = Some 0 \<and>
   authenticatedIdentity (connections bobBefriended (chan_connection (channels bobBefriended 22)))
     = ''bob.onion'' \<and>
   m_requests bobBefriended = [0] \<and>
   requests bobBefriended 0 =
     \<lparr>m_hostname = ''bob.onion'', m_nickname = ''Bob'', m_message = ''hello'',
      m_requestDate = Some 10, m_lastRequestDate = Some 10, connection = Some 11\<rparr> \<and>
   isConnected (connections bobBefriended 11) \<and>
   purpose (connections bobBefriended 12) = Unknown \<and>
   \<not> isl (requestReceived True 20 21 (Some 22) bobBefriended) \<and>
   responseStatus (channels (projr (requestReceived True 20 21 (Some 22) bobBefriended)) 22) = None \<and>
   m_requests (projr (requestReceived True 20 21 (Some 22) bobBefriended)) = [0] \<and>
   requests (projr (requestReceived True 20 21 (Some 22) bobBefriended)) 0 =
     \<lparr>m_hostname = ''bob.onion'', m_nickname = ''Bob'', m_message = ''hello again'',
      m_requestDate = Some 10, m_lastRequestDate = Some 20, connection = Some 12\<rparr> \<and>
   \<not> isConnected (connections (projr (requestReceived True 20 21 (Some 22) bobBefriended)) 11) \<and>
   purpose (connections (projr (requestReceived True 20 21 (Some 22) bobBefriended)) 12)
     = InboundRequest"
proof -
  have carol: "lookupHostname ''carol.onion'' carolKnown = Some 0"
    "authenticatedIdentity (connections carolKnown (chan_connection (channels carolKnown 21)))
       = ''carol.onion''"
    "purpose (connections carolKnown 11) = Unknown"
    "parent (connections carolKnown 11) = DefaultOwner"
    "next_request carolKnown = 0"
    by (simp_all add: lookupHostname_def carolKnown_def inbound_def emptyState_def)
  have carol': "\<not> isl (requestReceived True 20 21 (Some 21) carolKnown)"
    "responseStatus (channels (projr (requestReceived True 20 21 (Some 21) carolKnown)) 21) = None"
    "m_requests (projr (requestReceived True 20 21 (Some 21) carolKnown)) = []"
    "purpose (connections (projr (requestReceived True 20 21 (Some 21) carolKnown)) 11)
       = InboundRequest"
    "parent (connections (projr (requestReceived True 20 21 (Some 21) carolKnown)) 11)
       = RequestOwner 0"
    "next_request (projr (requestReceived True 20 21 (Some 21) carolKnown)) = 1"
    "requests (projr (requestReceived True 20 21 (Some 21) carolKnown)) 0 =
       \<lparr>m_hostname = ''carol.onion'', m_nickname = ''Carol'', m_message = ''me again'',
        m_requestDate = None, m_lastRequestDate = None, connection = Some 11\<rparr>"
    by (simp_all add: run_defs carolKnown_def inbound_def emptyState_def)
  have bob: "lookupHostname ''bob.onion'' bobBefriended = Some 0"
    "authenticatedIdentity (connections bobBefriended (chan_connection (channels bobBefriended 22)))
       = ''bob.onion''"
    "m_requests bobBefriended = [0]"
    "requests bobBefriended 0 =
       \<lparr>m_hostname = ''bob.onion'', m_nickname = ''Bob'', m_message = ''hello'',
        m_requestDate = Some 10, m_lastRequestDate = Some 10, connection = Some 11\<rparr>"
    "isConnected (connections bobBefriended 11)"
    "purpose (connections bobBefriended 12) = Unknown"
    by (simp_all add: lookupHostname_def bobBefriended_def bobPending_fields)
  have bob': "\<not> isl (requestReceived True 20 21 (Some 22) bobBefriended)"
    "responseStatus (channels (projr (requestReceived True 20 21 (Some 22) bobBefriended)) 22) = None"
    "m_requests (projr (requestReceived True 20 21 (Some 22) bobBefriended)) = [0]"
    "requests (projr (requestReceived True 20 21 (Some 22) bobBefriended)) 0 =
       \<lparr>m_hostname = ''bob.onion'', m_nickname = ''Bob'', m_message = ''hello again'',
        m_requestDate = Some 10, m_lastRequestDate = Some 20, connection = Some 12\<rparr>"
    "\<not> isConnected (connections (projr (requestReceived True 20 21 (Some 22) bobBefriended)) 11)"
    "purpose (connections (projr (requestReceived True 20 21 (Some 22) bobBefriended)) 12)
       = InboundRequest"
    unfolding bobBefriended_eval
    by (simp_all add: renew_def setChannel_def Let_def collaborator_defs request_defs
        bobBefriended_fields bobPending_fields)
  from carol carol' bob bob' show ?thesis by simp
qed

text \<open>
  C2. For every hostname of the persisted blacklist, an inbound request from it
  changes no request object, neither the active list nor the persisted store nor
  the blacklist, whatever records existed before; the reply is never \<open>Pending\<close>,
  and it is \<open>Rejected\<close> for every hostname with the onion suffix.
\<close>

theorem blacklisted_request_rejected:
  assumes "H \<in> set (hostnameBlacklist s)"
    and "authenticatedIdentity (connections s (chan_connection (channels s channel))) = H"
  shows "\<exists>s'. requestReceived debug now1 now2 (Some channel) s = Inr s' \<and>
           requests s' = requests s \<and> next_request s' = next_request s \<and>
           m_requests s' = m_requests s \<and> settings s' = settings s \<and>
           hostnameBlacklist s' = hostnameBlacklist s \<and> connections s' = connections s \<and>
           responseStatus (channels s' channel) \<noteq> Some Pending \<and>
           (endsWith H ''.onion'' \<longrightarrow> responseStatus (channels s' channel) = Some Rejected)"
  using assms
  by (auto simp add: requestReceived_def Let_def isHostnameRejected_def
      setResponseStatus_def dest: endsWith_nonempty)

theorem blacklisted_request_rejected_witness:
  "''bob.onion'' \<in> set (hostnameBlacklist bobRejected) \<and>
   authenticatedIdentity (connections bobRejected (chan_connection (channels bobRejected 22)))
     = ''bob.onion'' \<and>
   endsWith ''bob.onion'' ''.onion'' \<and>
   (\<exists>s'. requestReceived True 20 21 (Some 22) bobRejected = Inr s' \<and>
      requests s' = requests bobRejected \<and> m_requests s' = [] \<and>
      settings s' = settings bobRejected \<and>
      responseStatus (channels s' 22) = Some Rejected)"
proof -
  have 1: "''bob.onion'' \<in> set (hostnameBlacklist bobRejected)"
    by (simp add: bobRejected_fields)
  have 2: "authenticatedIdentity (connections bobRejected (chan_connection (channels bobRejected 22)))
     = ''bob.onion''"
    by (simp add: bobRejected_fields bobPending_fields)
  have 3: "endsWith ''bob.onion'' ''.onion''"
    by (simp add: endsWith_def)
  from blacklisted_request_rejected [OF 1 2, of True 20 21] 1 2 3 show ?thesis
    by (auto simp add: bobRejected_fields)
qed

text \<open>
  C3. After \<^verbatim>\<open>reject\<close> on a request for the hostname \<open>H\<close>, \<open>H\<close> is in the persisted
  blacklist, the persisted record is removed and the request is taken out of the
  active list. After any run of events that follows, \<open>H\<close> is still blacklisted, and
  an inbound request from \<open>H\<close> is answered \<open>Rejected\<close> at the blacklist check:
  it changes no record and is never answered \<open>Pending\<close>.
\<close>

theorem reject_blacklists:
  assumes "m_hostname (requests s r) = H"
    and "run debug es (reject r s) = Inr s'"
    and "authenticatedIdentity (connections s' (chan_connection (channels s' channel))) = H"
  shows "H \<in> set (hostnameBlacklist (reject r s)) \<and>
         settings (reject r s) (settingsKey H) = None \<and>
         m_requests (reject r s) = remove1 r (m_requests s) \<and>
         (distinct (m_requests s) \<longrightarrow> r \<notin> set (m_requests (reject r s))) \<and>
         H \<in> set (hostnameBlacklist s') \<and>
         (\<exists>s''. requestReceived debug now1 now2 (Some channel) s' = Inr s'' \<and>
            requests s'' = requests s' \<and> m_requests s'' = m_requests s' \<and>
            settings s'' = settings s' \<and>
            responseStatus (channels s'' channel) \<noteq> Some Pending \<and>
            (endsWith H ''.onion'' \<longrightarrow> responseStatus (channels s'' channel) = Some Rejected))"
proof -
  have 1: "H \<in> set (hostnameBlacklist (reject r s))"
    using assms(1) by (simp add: reject_fields addRejectedHost_member)
  with run_blacklist [OF assms(2)] have 2: "H \<in> set (hostnameBlacklist s')" by blast
  have 3: "settings (reject r s) (settingsKey H) = None"
    using assms(1) by (simp add: reject_fields)
  have 4: "m_requests (reject r s) = remove1 r (m_requests s)"
    by (simp add: reject_fields)
  have 5: "\<exists>s''. requestReceived debug now1 now2 (Some channel) s' = Inr s'' \<and>
            requests s'' = requests s' \<and> m_requests s'' = m_requests s' \<and>
            settings s'' = settings s' \<and>
            responseStatus (channels s'' channel) \<noteq> Some Pending \<and>
            (endsWith H ''.onion'' \<longrightarrow> responseStatus (channels s'' channel) = Some Rejected)"
    using 2 assms(3)
    by (auto simp add: requestReceived_def Let_def isHostnameRejected_def
        setResponseStatus_def dest: endsWith_nonempty)
  from 1 2 3 4 5 show ?thesis by simp
qed

theorem reject_blacklists_witness:
  "m_hostname (requests bobPending 0) = ''bob.onion'' \<and>
   run True [ConnectionClosed 0 11] (reject 0 bobPending) = Inr (connectionClosed 0 11 bobRejected) \<and>
   authenticatedIdentity (connections (connectionClosed 0 11 bobRejected)
      (chan_connection (channels (connectionClosed 0 11 bobRejected) 22))) = ''bob.onion'' \<and>
   distinct (m_requests bobPending) \<and> endsWith ''bob.onion'' ''.onion'' \<and>
   ''bob.onion'' \<in> set (hostnameBlacklist (reject 0 bobPending)) \<and>
   settings (reject 0 bobPending) (settingsKey ''bob.onion'') = None \<and>
   0 \<notin> set (m_requests (reject 0 bobPending)) \<and>
   (\<exists>s''. requestReceived True 20 21 (Some 22) (connectionClosed 0 11 bobRejected) = Inr s'' \<and>
      m_requests s'' = m_requests (connectionClosed 0 11 bobRejected) \<and>
      responseStatus (channels s'' 22) = Some Rejected)"
proof -
  have 1: "m_hostname (requests bobPending 0) = ''bob.onion''"
    by (simp add: bobPending_fields)
  have 2: "run True [ConnectionClosed 0 11] (reject 0 bobPending) = Inr (connectionClosed 0 11 bobRejected)"
    by (simp add: bobRejected_def)
  have 3: "authenticatedIdentity (connections (connectionClosed 0 11 bobRejected)
      (chan_connection (channels (connectionClosed 0 11 bobRejected) 22))) = ''bob.onion''"
    by (simp add: connectionClosed_def setConnection_def bobRejected_fields bobPending_fields)
  have 4: "distinct (m_requests bobPending)" "endsWith ''bob.onion'' ''.onion''"
    by (simp_all add: bobPending_fields endsWith_def)
  from reject_blacklists [OF 1 2 3, of 20 21] 1 2 3 4 show ?thesis
    by auto
qed

text \<open>
  C4, as amended. For every normalized onion hostname \<open>H\<close> that is neither
  blacklisted nor a known contact nor a local identity, with exactly one record in
  the active list whose request date is set: a further inbound request from \<open>H\<close>
  is answered \<open>Pending\<close>, creates no record, leaves the active list as it was,
  with that one record for \<open>H\<close>, sets the last request date to the current time
  and leaves the request date unchanged, in the object and in the persisted record.
\<close>

theorem second_request_renews:
  assumes "authenticatedIdentity (connections s (chan_connection (channels s channel))) = H"
    and "endsWith H ''.onion''" and "debug \<longrightarrow> H = toLower H"
    and "H \<notin> set (hostnameBlacklist s)" and "lookupHostname H s = None"
    and "H \<notin> set (identities s)"
    and "filter (\<lambda>r'. m_hostname (requests s r') = H) (m_requests s) = [r]"
    and "m_requestDate (requests s r) \<noteq> None"
  shows "\<exists>s'. requestReceived debug now1 now2 (Some channel) s = Inr s' \<and>
           m_requests s' = m_requests s \<and> next_request s' = next_request s \<and>
           filter (\<lambda>r'. m_hostname (requests s' r') = H) (m_requests s') = [r] \<and>
           (\<forall>r'. r' \<noteq> r \<longrightarrow> requests s' r' = requests s r') \<and>
           m_lastRequestDate (requests s' r) = Some now1 \<and>
           m_requestDate (requests s' r) = m_requestDate (requests s r) \<and>
           (\<forall>k. k \<noteq> settingsKey H \<longrightarrow> settings s' k = settings s k) \<and>
           (\<exists>stored. settings s' (settingsKey H) = Some stored \<and>
              stored_lastRequestDate stored = Some now1 \<and>
              stored_requestDate stored = m_requestDate (requests s r)) \<and>
           responseStatus (channels s' channel) = Some Pending"
proof -
  let ?s' = "save now2 r (setResponseStatus channel Pending (renew now1 r (setChannel r channel s)))"
  have h: "m_hostname (requests s r) = H"
  proof -
    have "r \<in> set (filter (\<lambda>r'. m_hostname (requests s r') = H) (m_requests s))"
      by (simp add: assms(7))
    then show ?thesis by simp
  qed
  have run: "requestReceived debug now1 now2 (Some channel) s = Inr ?s'"
    using requestReceived_existing [OF assms(1,2,3,4,6) find_only [OF assms(7)]] assms(5)
    by simp
  have hosts: "m_hostname (requests ?s' r') = m_hostname (requests s r')" for r'
    by (simp add: save_def Let_def setResponseStatus_def renew_def setChannel_requests)
  have 1: "m_requests ?s' = m_requests s" "next_request ?s' = next_request s"
    by (simp_all add: save_def Let_def setResponseStatus_def renew_def setChannel_frame)
  have 2: "filter (\<lambda>r'. m_hostname (requests ?s' r') = H) (m_requests ?s') = [r]"
    using assms(7) by (simp add: hosts 1)
  have 3: "\<forall>r'. r' \<noteq> r \<longrightarrow> requests ?s' r' = requests s r'"
    by (simp add: save_def Let_def setResponseStatus_def renew_def setChannel_requests)
  have 4: "m_lastRequestDate (requests ?s' r) = Some now1"
    "m_requestDate (requests ?s' r) = m_requestDate (requests s r)"
    using assms(8)
    by (auto simp add: save_def Let_def setResponseStatus_def renew_def setChannel_requests)
  have 5: "\<forall>k. k \<noteq> settingsKey H \<longrightarrow> settings ?s' k = settings s k"
    using h by (simp add: save_def Let_def setResponseStatus_def renew_def setChannel_requests
        setChannel_frame)
  have 6: "\<exists>stored. settings ?s' (settingsKey H) = Some stored \<and>
              stored_lastRequestDate stored = Some now1 \<and>
              stored_requestDate stored = m_requestDate (requests s r)"
    using h assms(8)
    by (auto simp add: save_def Let_def setResponseStatus_def renew_def setChannel_requests)
  have 7: "responseStatus (channels ?s' channel) = Some Pending"
    by (simp add: save_def Let_def setResponseStatus_def renew_def setChannel_frame)
  from run 1 2 3 4 5 6 7 show ?thesis by blast
qed

theorem second_request_renews_witness:
  "authenticatedIdentity (connections bobPending (chan_connection (channels bobPending 22)))
     = ''bob.onion'' \<and>
   endsWith ''bob.onion'' ''.onion'' \<and> ''bob.onion'' = toLower ''bob.onion'' \<and>
   ''bob.onion'' \<notin> set (hostnameBlacklist bobPending) \<and>
   lookupHostname ''bob.onion'' bobPending = None \<and>
   ''bob.onion'' \<notin> set (identities bobPending) \<and>
   filter (\<lambda>r'. m_hostname (requests bobPending r') = ''bob.onion'') (m_requests bobPending) = [0] \<and>
   m_requestDate (requests bobPending 0) \<noteq> None \<and>
   (\<exists>s'. requestReceived True 20 21 (Some 22) bobPending = Inr s' \<and>
      m_requests s' = [0] \<and>
      m_lastRequestDate (requests s' 0) = Some 20 \<and>
      m_requestDate (requests s' 0) = Some 10 \<and>
      responseStatus (channels s' 22) = Some Pending)"
proof -
  have 1: "authenticatedIdentity (connections bobPending (chan_connection (channels bobPending 22)))
     = ''bob.onion''"
    by (simp add: bobPending_fields)
  have 2: "endsWith ''bob.onion'' ''.onion''"
    by (simp add: endsWith_def)
  have 3: "''bob.onion'' = toLower ''bob.onion''"
    by (simp add: toLower_def toLower_char_def)
  then have lower: "True \<longrightarrow> ''bob.onion'' = toLower ''bob.onion''" by simp
  have 4: "''bob.onion'' \<notin> set (hostnameBlacklist bobPending)"
    by (simp add: bobPending_fields)
  have 5: "lookupHostname ''bob.onion'' bobPending = None"
    by (simp add: lookupHostname_def bobPending_fields)
  have 6: "''bob.onion'' \<notin> set (identities bobPending)"
    by (simp add: bobPending_fields)
  have 7: "filter (\<lambda>r'. m_hostname (requests bobPending r') = ''bob.onion'') (m_requests bobPending) = [0]"
    by (simp add: bobPending_fields)
  have 8: "m_requestDate (requests bobPending 0) \<noteq> None"
    by (simp add: bobPending_fields)
  from second_request_renews [OF 1 2 lower 4 5 6 7 8, of 20 21] 1 2 3 4 5 6 7 8 show ?thesis
    by (auto simp add: bobPending_fields)
qed

text \<open>
  C4 as stated fails twice. Bob's hostname is a local identity: his second request
  is answered \<open>Error\<close> and the last request date stays at 10. Dave's record was
  loaded without dates: his request sets the request date, which was null, to the
  current time.
\<close>

theorem second_request_renews_counterexample:
  "''bob.onion'' \<notin> set (hostnameBlacklist bobLocal) \<and>
   lookupHostname ''bob.onion'' bobLocal = None \<and>
   filter (\<lambda>r'. m_hostname (requests bobLocal r') = ''bob.onion'') (m_requests bobLocal) = [0] \<and>
   authenticatedIdentity (connections bobLocal (chan_connection (channels bobLocal 22)))
     = ''bob.onion'' \<and>
   \<not> isl (requestReceived True 20 21 (Some 22) bobLocal) \<and>
   m_lastRequestDate (requests (projr (requestReceived True 20 21 (Some 22) bobLocal)) 0) = Some 10 \<and>
   responseStatus (channels (projr (requestReceived True 20 21 (Some 22) bobLocal)) 22) = Some Error \<and>
   ''dave.onion'' \<notin> set (hostnameBlacklist daveLoaded) \<and>
   lookupHostname ''dave.onion'' daveLoaded = None \<and>
   filter (\<lambda>r'. m_hostname (requests daveLoaded r') = ''dave.onion'') (m_requests daveLoaded) = [0] \<and>
   authenticatedIdentity (connections daveLoaded (chan_connection (channels daveLoaded 21)))
     = ''dave.onion'' \<and>
   m_requestDate (requests daveLoaded 0) = None \<and>
   \<not> isl (requestReceived True 20 21 (Some 21) daveLoaded) \<and>
   m_requestDate (requests (projr (requestReceived True 20 21 (Some 21) daveLoaded)) 0) = Some 21"
proof -
  have a: "''bob.onion'' \<notin> set (hostnameBlacklist bobLocal)"
    "lookupHostname ''bob.onion'' bobLocal = None"
    "filter (\<lambda>r'. m_hostname (requests bobLocal r') = ''bob.onion'') (m_requests bobLocal) = [0]"
    "authenticatedIdentity (connections bobLocal (chan_connection (channels bobLocal 22)))
       = ''bob.onion''"
    by (simp_all add: bobLocal_def bobPending_fields lookupHostname_def)
  have b: "m_lastRequestDate (requests (setResponseStatus 22 Error bobLocal) 0) = Some 10"
    "responseStatus (channels (setResponseStatus 22 Error bobLocal) 22) = Some Error"
    by (simp_all add: setResponseStatus_def bobLocal_def bobPending_fields)
  have c: "''dave.onion'' \<notin> set (hostnameBlacklist daveLoaded)"
    "lookupHostname ''dave.onion'' daveLoaded = None"
    "filter (\<lambda>r'. m_hostname (requests daveLoaded r') = ''dave.onion'') (m_requests daveLoaded) = [0]"
    "authenticatedIdentity (connections daveLoaded (chan_connection (channels daveLoaded 21)))
       = ''dave.onion''"
    "m_requestDate (requests daveLoaded 0) = None"
    by (simp_all add: daveLoaded_fields lookupHostname_def)
  have d: "\<not> isl (requestReceived True 20 21 (Some 21) daveLoaded)"
    "m_requestDate (requests (projr (requestReceived True 20 21 (Some 21) daveLoaded)) 0) = Some 21"
    by (simp_all add: daveLoaded_eval save_def setResponseStatus_def renew_def Let_def
        setChannel_requests daveLoaded_fields)
  from a b c d show ?thesis by (simp add: bobLocal_eval)
qed

text \<open>
  C5, as amended. For every request with a non-empty nickname and no attached
  connection, \<^verbatim>\<open>accept\<close> without a contact creates a contact with that nickname and
  the request's hostname, removes the persisted record and takes the request out
  of the active list. With an empty nickname and no connection, \<^verbatim>\<open>accept\<close> fails on
  its assertion where assertions are compiled in.
\<close>

theorem accept_without_connection:
  assumes "connection (requests s r) = None"
  shows "(m_nickname (requests s r) \<noteq> [] \<longrightarrow>
            (\<exists>s'. accept debug None r s = Inr s' \<and>
               users s' (next_user s) =
                 \<lparr>user_nickname = m_nickname (requests s r),
                  user_hostname = m_hostname (requests s r), user_connection = None\<rparr> \<and>
               contacts s' = contacts s @ [next_user s] \<and>
               settings s' (settingsKey (m_hostname (requests s r))) = None \<and>
               m_requests s' = remove1 r (m_requests s) \<and>
               (distinct (m_requests s) \<longrightarrow> r \<notin> set (m_requests s')))) \<and>
         (m_nickname (requests s r) = [] \<longrightarrow> accept True None r s = Inl AssertionFailed)"
  using assms
  by (simp add: accept_def accept_user_def accept_connection_def manager_removeRequest_def
      collaborator_defs request_defs)

theorem accept_without_connection_witness:
  "connection (requests aliceStored 0) = None \<and> m_nickname (requests aliceStored 0) \<noteq> [] \<and>
   distinct (m_requests aliceStored) \<and>
   (\<exists>s'. accept False None 0 aliceStored = Inr s' \<and>
      users s' 0 = \<lparr>user_nickname = ''Alice'', user_hostname = ''alice.onion'',
                    user_connection = None\<rparr> \<and>
      contacts s' = [0] \<and> settings s' ''contactRequests.alice'' = None \<and>
      0 \<notin> set (m_requests s')) \<and>
   connection (requests namelessStored 0) = None \<and> m_nickname (requests namelessStored 0) = [] \<and>
   accept True None 0 namelessStored = Inl AssertionFailed"
proof -
  have 1: "connection (requests aliceStored 0) = None" "m_nickname (requests aliceStored 0) \<noteq> []"
    "distinct (m_requests aliceStored)"
    "connection (requests namelessStored 0) = None" "m_nickname (requests namelessStored 0) = []"
    by (simp_all add: aliceStored_fields namelessStored_fields)
  have 2: "next_user aliceStored = 0" "contacts aliceStored = []"
    "m_nickname (requests aliceStored 0) = ''Alice''"
    "m_hostname (requests aliceStored 0) = ''alice.onion''"
    "settingsKey ''alice.onion'' = ''contactRequests.alice''"
    by (simp_all add: aliceStored_fields settingsKey_def chop_def)
  from accept_without_connection [OF 1(1), of False] accept_without_connection [OF 1(4)] 1 2
  show ?thesis by auto
qed

text \<open>
  C5 as stated fails where assertions are compiled out: with an empty nickname,
  \<^verbatim>\<open>accept\<close> returns and a contact with the empty nickname has been created.
\<close>

theorem accept_empty_nickname_counterexample:
  "connection (requests namelessStored 0) = None \<and> m_nickname (requests namelessStored 0) = [] \<and>
   contacts namelessStored = [] \<and>
   \<not> isl (accept False None 0 namelessStored) \<and>
   contacts (projr (accept False None 0 namelessStored)) = [0] \<and>
   users (projr (accept False None 0 namelessStored)) 0 =
     \<lparr>user_nickname = [], user_hostname = ''alice.onion'', user_connection = None\<rparr>"
  by (simp add: accept_def accept_user_def accept_connection_def manager_removeRequest_def
      collaborator_defs request_defs namelessStored_fields)

text \<open>
  C9. \<^verbatim>\<open>addRejectedHost\<close> on a hostname that is already in the blacklist changes
  nothing, adding a hostname twice is adding it once, and a blacklist without
  duplicates stays without duplicates.
\<close>

theorem addRejectedHost_idempotent:
  "(hostname \<in> set (hostnameBlacklist s) \<longrightarrow> addRejectedHost hostname s = s) \<and>
   addRejectedHost hostname (addRejectedHost hostname s) = addRejectedHost hostname s \<and>
   (distinct (hostnameBlacklist s) \<longrightarrow> distinct (hostnameBlacklist (addRejectedHost hostname s)))"
  by (simp add: addRejectedHost_def Let_def)

theorem addRejectedHost_idempotent_witness:
  "''bob.onion'' \<in> set (hostnameBlacklist bobRejected) \<and>
   distinct (hostnameBlacklist bobRejected) \<and>
   addRejectedHost ''bob.onion'' bobRejected = bobRejected \<and>
   addRejectedHost ''bob.onion'' (addRejectedHost ''bob.onion'' bobPending)
     = addRejectedHost ''bob.onion'' bobPending \<and>
   distinct (hostnameBlacklist (addRejectedHost ''bob.onion'' bobRejected))"
  using addRejectedHost_idempotent [of "''bob.onion''" bobRejected]
    addRejectedHost_idempotent [of "''bob.onion''" bobPending]
  by (simp add: bobRejected_fields)

text \<open>
  C10. A request holds at most one connection. When \<^verbatim>\<open>setChannel\<close> is called on a
  request that has a connection attached, that connection is closed in the result;
  the request then holds the new channel's connection, claimed as
  \<open>InboundRequest\<close> and owned by the request, when its purpose was \<open>Unknown\<close>, and
  otherwise it still holds the old, closed one, and the new connection is closed too.
\<close>

theorem setChannel_replaces_connection:
  assumes "connection (requests s r) = Some old"
  shows "\<not> isConnected (connections (setChannel r channel s) old) \<and>
         (purpose (connections s (chan_connection (channels s channel))) = Unknown \<longrightarrow>
            connection (requests (setChannel r channel s) r) = Some (chan_connection (channels s channel)) \<and>
            purpose (connections (setChannel r channel s) (chan_connection (channels s channel))) = InboundRequest \<and>
            parent (connections (setChannel r channel s) (chan_connection (channels s channel))) = RequestOwner r \<and>
            (chan_connection (channels s channel) \<noteq> old \<longrightarrow>
               isConnected (connections (setChannel r channel s) (chan_connection (channels s channel)))
                 = isConnected (connections s (chan_connection (channels s channel))))) \<and>
         (purpose (connections s (chan_connection (channels s channel))) \<noteq> Unknown \<longrightarrow>
            connection (requests (setChannel r channel s) r) = Some old \<and>
            \<not> isConnected (connections (setChannel r channel s) (chan_connection (channels s channel))))"
  using assms
  by (simp add: setChannel_def Let_def collaborator_defs request_defs)

theorem setChannel_replaces_connection_witness:
  "connection (requests bobPending 0) = Some 11 \<and>
   purpose (connections bobPending (chan_connection (channels bobPending 22))) = Unknown \<and>
   chan_connection (channels bobPending 22) \<noteq> 11 \<and>
   \<not> isConnected (connections (setChannel 0 22 bobPending) 11) \<and>
   connection (requests (setChannel 0 22 bobPending) 0) = Some 12 \<and>
   isConnected (connections (setChannel 0 22 bobPending) 12) \<and>
   purpose (connections bobPending (chan_connection (channels bobPending 21))) \<noteq> Unknown \<and>
   connection (requests (setChannel 0 21 bobPending) 0) = Some 11 \<and>
   \<not> isConnected (connections (setChannel 0 21 bobPending) 11)"
  using setChannel_replaces_connection [of bobPending 0 11 22]
    setChannel_replaces_connection [of bobPending 0 11 21]
  by (simp add: bobPending_fields)

end
